theory Spec2Isabelle
  imports Main "HOL-Library.Sublist"
begin

section \<open>The JavaScript values the program handles\<close>

text \<open>
  The embedding follows \<^verbatim>\<open>src/index.js\<close>. A JavaScript value that may be \<^verbatim>\<open>undefined\<close>
  or \<^verbatim>\<open>null\<close> is a value of \<open>'a js\<close>. The program tests such values for truthiness
  (\<^verbatim>\<open>.find(Boolean)\<close>, \<^verbatim>\<open>.filter(Boolean)\<close>): an object is always truthy, a string is
  truthy when it is not empty, \<^verbatim>\<open>undefined\<close> and \<^verbatim>\<open>null\<close> never are.

  Strings are byte strings (UTF-8). The program never computes with numbers itself: it
  hands them to the runtime to be printed, parsed and compared. The runtime's conversions
  between numbers and text are parameters of the embedding (see the section on numbers),
  so that what is proved holds for whatever the runtime does, fractions and exponent
  notation included.

  The objects the program uses as dictionaries are ordinary objects, which inherit the
  members of \<^verbatim>\<open>Object.prototype\<close>; the embedding follows the program's reads and writes
  through them (see the sections on objects and on the image resolver).
\<close>

datatype 'a js = Undefined | Null | Val 'a

datatype exn = Error string | TypeError | SyntaxError | NetworkError

text \<open>\<^verbatim>\<open>Boolean(v)\<close> for a value that is an object when defined.\<close>

fun truthy_obj :: "'a js \<Rightarrow> bool" where
  "truthy_obj (Val _) = True"
| "truthy_obj _ = False"

text \<open>\<^verbatim>\<open>Boolean(v)\<close> for a value that is a string when defined.\<close>

fun truthy_str :: "string js \<Rightarrow> bool" where
  "truthy_str (Val s) = (s \<noteq> [])"
| "truthy_str _ = False"

text \<open>\<^verbatim>\<open>Array.prototype.find\<close>: the first element satisfying the predicate, else \<^verbatim>\<open>undefined\<close>.\<close>

definition array_find :: "('a js \<Rightarrow> bool) \<Rightarrow> 'a js list \<Rightarrow> 'a js" where
  "array_find p xs = (case List.find p xs of Some x \<Rightarrow> x | None \<Rightarrow> Undefined)"

section \<open>String conversions of the runtime\<close>

text \<open>\<^verbatim>\<open>String(n)\<close> for a non-negative integer: its decimal digits.\<close>

definition digit_char :: "nat \<Rightarrow> char" where
  "digit_char d = ''0123456789'' ! d"

fun show_nat :: "nat \<Rightarrow> string" where
  "show_nat n = (if n < 10 then [digit_char n] else show_nat (n div 10) @ [digit_char (n mod 10)])"

declare show_nat.simps [simp del]

text \<open>\<^verbatim>\<open>'' + v\<close> and \<^verbatim>\<open>`${v}`\<close> for a string that may be \<^verbatim>\<open>undefined\<close> or \<^verbatim>\<open>null\<close>.\<close>

fun to_string :: "string js \<Rightarrow> string" where
  "to_string Undefined = ''undefined''"
| "to_string Null = ''null''"
| "to_string (Val s) = s"

text \<open>
  \<^verbatim>\<open>Array.prototype.join\<close> with the separator \<^verbatim>\<open>,\<close> (also \<^verbatim>\<open>String(array)\<close>): an element
  that is \<^verbatim>\<open>undefined\<close> or \<^verbatim>\<open>null\<close> contributes the empty string.
\<close>

fun join_elem :: "string js \<Rightarrow> string" where
  "join_elem (Val s) = s"
| "join_elem _ = []"

fun array_join :: "string js list \<Rightarrow> string" where
  "array_join [] = []"
| "array_join [x] = join_elem x"
| "array_join (x # y # ys) = join_elem x @ '','' @ array_join (y # ys)"

section \<open>Numbers and the runtime\<close>

text \<open>
  A JavaScript number is \<^verbatim>\<open>NaN\<close>, an infinity, or a finite number. The finite numbers are
  the values of a type \<open>'n\<close> that the embedding leaves open. What the runtime does with
  them is given by a record: \<open>String_of\<close> is the text of a finite number (\<^verbatim>\<open>String(x)\<close>, also
  \<^verbatim>\<open>`${x}`\<close>), \<open>Number_of\<close> the number a string converts to (\<^verbatim>\<open>+s\<close>).
\<close>

datatype 'n jsnum = NaN | NegInfinity | PosInfinity | Num 'n

record 'n runtime =
  String_of :: "'n \<Rightarrow> string"
  Number_of :: "string \<Rightarrow> 'n jsnum"

text \<open>\<^verbatim>\<open>String(v)\<close> and \<^verbatim>\<open>`${v}`\<close> for a number.\<close>

fun number_string :: "'n runtime \<Rightarrow> 'n jsnum \<Rightarrow> string" where
  "number_string rt NaN = ''NaN''"
| "number_string rt NegInfinity = ''-Infinity''"
| "number_string rt PosInfinity = ''Infinity''"
| "number_string rt (Num x) = String_of rt x"

section \<open>Document nodes\<close>

text \<open>
  A node of the document tree: its \<^verbatim>\<open>id\<close>, \<^verbatim>\<open>name\<close> and \<^verbatim>\<open>type\<close> are strings, its
  \<^verbatim>\<open>children\<close> an array of nodes, absent for a leaf.
\<close>

datatype node = Node (node_id: string) (node_name: string) (node_type: string)
  (children: "node list option")

section \<open>Document search\<close>

text \<open>
  \<^verbatim>\<open>findNode(nodeId, searchNode)\<close> inside \<^verbatim>\<open>findNodesById\<close>. The requested identifier may
  itself be \<^verbatim>\<open>undefined\<close> or \<^verbatim>\<open>null\<close> (the orchestrator appends the results of the search
  by name); \<^verbatim>\<open>===\<close> then fails against every string.
\<close>

fun findNode :: "string js \<Rightarrow> node \<Rightarrow> node js" where
  "findNode nodeId (Node i n t cs) =
     (if nodeId = Val i then Val (Node i n t cs)
      else (case cs of
              Some ns \<Rightarrow> array_find truthy_obj (map (findNode nodeId) ns)
            | None \<Rightarrow> Null))"

text \<open>\<^verbatim>\<open>findNameInNode(name, node)\<close> inside \<^verbatim>\<open>findNodeIdsForNames\<close>.\<close>

fun findNameInNode :: "string \<Rightarrow> node \<Rightarrow> string js" where
  "findNameInNode name (Node i n t cs) =
     (if name = n \<and> t = ''FRAME'' then Val i
      else (case cs of
              Some ns \<Rightarrow> array_find truthy_str (map (findNameInNode name) ns)
            | None \<Rightarrow> Null))"

text \<open>
  Depth-first, pre-order, left-to-right traversal, as the specification words it: a node,
  then the traversals of its children in order.
\<close>

fun preorder :: "node \<Rightarrow> node list" where
  "preorder (Node i n t cs) =
     Node i n t cs # (case cs of Some ns \<Rightarrow> concat (map preorder ns) | None \<Rightarrow> [])"

text \<open>The first node of the traversal with a given identifier.\<close>

definition has_id :: "string js \<Rightarrow> node \<Rightarrow> bool" where
  "has_id nodeId n \<longleftrightarrow> nodeId = Val (node_id n)"

definition first_with_id :: "string js \<Rightarrow> node \<Rightarrow> node option" where
  "first_with_id nodeId tree = List.find (has_id nodeId) (preorder tree)"

text \<open>The first node of the traversal with a given name and the type \<^verbatim>\<open>FRAME\<close>.\<close>

definition is_frame_named :: "string \<Rightarrow> node \<Rightarrow> bool" where
  "is_frame_named name n \<longleftrightarrow> name = node_name n \<and> node_type n = ''FRAME''"

definition first_frame_named :: "string \<Rightarrow> node \<Rightarrow> node option" where
  "first_frame_named name tree = List.find (is_frame_named name) (preorder tree)"

text \<open>An absent result: \<^verbatim>\<open>null\<close> or \<^verbatim>\<open>undefined\<close>.\<close>

fun absent :: "'a js \<Rightarrow> bool" where
  "absent (Val _) = False"
| "absent _ = True"

section \<open>API client\<close>

text \<open>
  A parsed response body, seen through the properties the program reads from it. The JSON
  text \<^verbatim>\<open>null\<close> has no properties: reading one throws a \<^verbatim>\<open>TypeError\<close>. Any other
  JSON value is given by its \<^verbatim>\<open>err\<close>, \<^verbatim>\<open>document\<close> and \<^verbatim>\<open>images\<close> properties, each
  \<^verbatim>\<open>undefined\<close> when the value has no such field. In the service's schema \<^verbatim>\<open>err\<close> is a
  string or \<^verbatim>\<open>null\<close>, \<^verbatim>\<open>document\<close> a node, and \<^verbatim>\<open>images\<close> an object from node identifiers
  to a URL or \<^verbatim>\<open>null\<close>.
\<close>

type_synonym jsobj = "(string \<times> string js) list"

datatype body = JNull | JValue "string js" "node js" "jsobj js"

text \<open>
  A response: its status and the outcome of \<^verbatim>\<open>response.json()\<close>, which rejects when the
  body is not JSON.
\<close>

record 'b response =
  status :: nat
  json :: "exn + 'b"

text \<open>A query parameter value, as the callers of \<^verbatim>\<open>get\<close> pass it.\<close>

datatype 'n param = PStr string | PNum "'n jsnum" | PArr "string js list"

text \<open>The text \<^verbatim>\<open>URLSearchParams\<close> makes of a value.\<close>

fun param_string :: "'n runtime \<Rightarrow> 'n param \<Rightarrow> string" where
  "param_string rt (PStr s) = s"
| "param_string rt (PNum n) = number_string rt n"
| "param_string rt (PArr xs) = array_join xs"

text \<open>
  \<^verbatim>\<open>new URLSearchParams(params).toString()\<close>: the \<^verbatim>\<open>application/x-www-form-urlencoded\<close>
  serialisation. Alphanumeric bytes and \<^verbatim>\<open>*-._\<close> stay, a space becomes \<^verbatim>\<open>+\<close>, every
  other byte is percent-encoded.
\<close>

definition hex_char :: "nat \<Rightarrow> char" where
  "hex_char d = ''0123456789ABCDEF'' ! d"

definition urlencode_char :: "char \<Rightarrow> string" where
  "urlencode_char c =
     (if c \<in> set ''abcdefghijklmnopqrstuvwxyzABCDEFGHIJKLMNOPQRSTUVWXYZ0123456789*-._'' then [c]
      else if c = CHR '' '' then ''+''
      else [CHR ''%'', hex_char (of_char c div 16), hex_char (of_char c mod 16)])"

definition urlencode :: "string \<Rightarrow> string" where
  "urlencode s = concat (map urlencode_char s)"

fun search_pairs :: "string list \<Rightarrow> string" where
  "search_pairs [] = []"
| "search_pairs [x] = x"
| "search_pairs (x # y # ys) = x @ ''&'' @ search_pairs (y # ys)"

definition URLSearchParams :: "'n runtime \<Rightarrow> (string \<times> 'n param) list \<Rightarrow> string" where
  "URLSearchParams rt params =
     search_pairs (map (\<lambda>(k, v). urlencode k @ ''='' @ urlencode (param_string rt v)) params)"

text \<open>The client object: the token and the injected fetch function.\<close>

record figmaApi =
  personalAccessToken :: string
  fetchFunc :: "string \<Rightarrow> (string \<times> string) list \<Rightarrow> exn + body response"

text \<open>
  \<^verbatim>\<open>figmaApi.prototype.get\<close>; \<open>rt\<close> is the runtime, which \<^verbatim>\<open>URLSearchParams\<close> uses to
  print a number among the parameters. With a status of 400 or more, \<^verbatim>\<open>extra\<close> starts empty; the
  \<^verbatim>\<open>try\<close> block appends the body's \<^verbatim>\<open>err\<close>, and the \<^verbatim>\<open>finally\<close> block throws the HTTP
  error whether the \<^verbatim>\<open>try\<close> block completed or threw (a rejected \<^verbatim>\<open>json()\<close>, or the
  property read on \<^verbatim>\<open>null\<close>), replacing the pending exception.
\<close>

definition http_extra :: "exn + body \<Rightarrow> string" where
  "http_extra parsed =
     (case parsed of
        Inl e \<Rightarrow> []
      | Inr JNull \<Rightarrow> []
      | Inr (JValue err doc imgs) \<Rightarrow> [] @ to_string err)"

definition request_url :: "'n runtime \<Rightarrow> string \<Rightarrow> (string \<times> 'n param) list option \<Rightarrow> string" where
  "request_url rt api params =
     (let search = (case params of Some ps \<Rightarrow> ''?'' @ URLSearchParams rt ps | None \<Rightarrow> [])
      in ''https://api.figma.com/v1/'' @ api @ search)"

definition get :: "'n runtime \<Rightarrow> figmaApi \<Rightarrow> string \<Rightarrow> (string \<times> 'n param) list option
    \<Rightarrow> exn + body" where
  "get rt this api params =
     (case fetchFunc this (request_url rt api params)
             [(''X-Figma-Token'', personalAccessToken this)] of
        Inl e \<Rightarrow> Inl e
      | Inr response \<Rightarrow>
          if status response \<ge> 400
          then Inl (Error (''HTTP error '' @ show_nat (status response)
                           @ '' accessing Figma. '' @ http_extra (json response)))
          else json response)"

section \<open>Searching a fetched file\<close>

text \<open>
  \<^verbatim>\<open>file.document\<close> is read inside the callback of \<^verbatim>\<open>map\<close>, once per requested element:
  with no element nothing is read; otherwise a file that is \<^verbatim>\<open>null\<close>, or whose document is
  not a node, makes the first callback throw.
\<close>

definition file_document :: "body \<Rightarrow> exn + node" where
  "file_document file =
     (case file of JValue err (Val d) imgs \<Rightarrow> Inr d | _ \<Rightarrow> Inl TypeError)"

definition findNodesById :: "body \<Rightarrow> string js list \<Rightarrow> exn + node js list" where
  "findNodesById file nodeIds =
     (if nodeIds = [] then Inr []
      else case file_document file of
             Inl e \<Rightarrow> Inl e
           | Inr d \<Rightarrow> Inr (map (\<lambda>nodeId. findNode nodeId d) nodeIds))"

definition findNodeIdsForNames :: "body \<Rightarrow> string list \<Rightarrow> exn + string js list" where
  "findNodeIdsForNames file names =
     (if names = [] then Inr []
      else case file_document file of
             Inl e \<Rightarrow> Inl e
           | Inr d \<Rightarrow> Inr (map (\<lambda>name. findNameInNode name d) names))"

section \<open>Objects as dictionaries\<close>

text \<open>
  An object is the list of its own properties in the order \<^verbatim>\<open>Object.keys\<close> reports them:
  array indices (canonical decimal strings below \<open>2\<^sup>3\<^sup>2 - 1\<close>) first, in ascending order,
  then the other names in the order of their creation. Assigning to an existing property
  keeps its place.

  The dictionaries of the program are made by \<^verbatim>\<open>{}\<close> and inherit from
  \<^verbatim>\<open>Object.prototype\<close>, whose members are listed here. A read of a name the object does
  not have itself finds the inherited member of that name, if there is one.
\<close>

definition object_prototype_members :: "string list" where
  "object_prototype_members =
     [''constructor'', ''__defineGetter__'', ''__defineSetter__'', ''hasOwnProperty'',
      ''__lookupGetter__'', ''__lookupSetter__'', ''isPrototypeOf'', ''propertyIsEnumerable'',
      ''toString'', ''valueOf'', ''__proto__'', ''toLocaleString'']"

definition is_digit :: "char \<Rightarrow> bool" where
  "is_digit c \<longleftrightarrow> c \<in> set ''0123456789''"

definition digits_value :: "string \<Rightarrow> nat" where
  "digits_value s = foldl (\<lambda>acc c. 10 * acc + (of_char c - 48)) 0 s"

definition is_array_index :: "string \<Rightarrow> bool" where
  "is_array_index k \<longleftrightarrow>
     k \<noteq> [] \<and> list_all is_digit k \<and> (k = ''0'' \<or> hd k \<noteq> CHR ''0'')
     \<and> digits_value k < 2 ^ 32 - 1"

fun insert_index :: "string \<Rightarrow> 'v \<Rightarrow> (string \<times> 'v) list \<Rightarrow> (string \<times> 'v) list" where
  "insert_index k v [] = [(k, v)]"
| "insert_index k v ((k', v') # rest) =
     (if is_array_index k' \<and> digits_value k' < digits_value k
      then (k', v') # insert_index k v rest
      else (k, v) # (k', v') # rest)"

text \<open>
  \<^verbatim>\<open>obj[k] = v\<close>. A property the object has is overwritten; one it does not have is
  created, except \<^verbatim>\<open>__proto__\<close>: that name reaches the accessor of \<^verbatim>\<open>Object.prototype\<close>,
  and no property is created. (The accessor would change the prototype for a value that is
  an object; the program assigns there a string, which is ignored, or
  \<^verbatim>\<open>Object.prototype\<close> itself, which changes nothing.)
\<close>

definition obj_set :: "string \<Rightarrow> 'v \<Rightarrow> (string \<times> 'v) list \<Rightarrow> (string \<times> 'v) list" where
  "obj_set k v obj =
     (if k \<in> fst ` set obj then map (\<lambda>(k', v'). if k' = k then (k', v) else (k', v')) obj
      else if k = ''__proto__'' then obj
      else if is_array_index k then insert_index k v obj
      else obj @ [(k, v)])"

text \<open>
  \<^verbatim>\<open>obj[k]\<close> for a name the object has itself, \<^verbatim>\<open>undefined\<close> otherwise. The program reads
  \<^verbatim>\<open>assetList[name]\<close> this way, with a name taken from \<^verbatim>\<open>Object.keys(assetList)\<close>.
\<close>

definition obj_get :: "jsobj \<Rightarrow> string \<Rightarrow> string js" where
  "obj_get obj k = (case map_of obj k of Some v \<Rightarrow> v | None \<Rightarrow> Undefined)"

section \<open>Asset list builder\<close>

text \<open>The inner loop of \<^verbatim>\<open>makeAssetList\<close>: \<^verbatim>\<open>assetList[node.name] = node.id\<close> for each child.\<close>

fun add_children :: "node list \<Rightarrow> jsobj \<Rightarrow> jsobj" where
  "add_children [] assetList = assetList"
| "add_children (n # ns) assetList =
     add_children ns (obj_set (node_name n) (Val (node_id n)) assetList)"

text \<open>
  The outer loop. Iterating \<^verbatim>\<open>frame.children\<close> throws when the frame has no
  \<^verbatim>\<open>children\<close> property.
\<close>

fun add_frames :: "node js list \<Rightarrow> jsobj \<Rightarrow> exn + jsobj" where
  "add_frames [] assetList = Inr assetList"
| "add_frames (Val frame # frames) assetList =
     (case children frame of
        Some ns \<Rightarrow> add_frames frames (add_children ns assetList)
      | None \<Rightarrow> Inl TypeError)"
| "add_frames (_ # frames) assetList = Inl TypeError"

definition makeAssetList :: "node js list \<Rightarrow> exn + jsobj" where
  "makeAssetList frames = add_frames (filter truthy_obj frames) []"

section \<open>Image resolver\<close>

text \<open>
  \<^verbatim>\<open>Promise.all\<close>: the results in order, or a rejection (here the first in list order;
  which of several rejections wins depends on timing).
\<close>

fun promise_all :: "(exn + 'a) list \<Rightarrow> exn + 'a list" where
  "promise_all [] = Inr []"
| "promise_all (x # xs) =
     (case x of
        Inl e \<Rightarrow> Inl e
      | Inr v \<Rightarrow> (case promise_all xs of Inl e \<Rightarrow> Inl e | Inr vs \<Rightarrow> Inr (v # vs)))"

text \<open>The key \<^verbatim>\<open>`@${scale}x`\<close>, with the text the runtime gives the scale.\<close>

definition scale_key :: "'n runtime \<Rightarrow> 'n jsnum \<Rightarrow> string" where
  "scale_key rt scale = ''@'' @ number_string rt scale @ ''x''"

text \<open>
  A value read from a dictionary: a string, \<^verbatim>\<open>null\<close> or \<^verbatim>\<open>undefined\<close>, or the member
  of \<^verbatim>\<open>Object.prototype\<close> of a given name (a function; for \<^verbatim>\<open>__proto__\<close> the prototype
  itself). Such a member is truthy.
\<close>

datatype jsval = Prim "string js" | Member string

type_synonym props = "(string \<times> jsval) list"

text \<open>What a read finds for a name the object does not have itself.\<close>

definition inherited :: "string \<Rightarrow> jsval" where
  "inherited k = (if k \<in> set object_prototype_members then Member k else Prim Undefined)"

text \<open>\<^verbatim>\<open>imageLists[scaleIndex].images[nodeId]\<close>: the response's own entry, else what is inherited.\<close>

definition images_get :: "jsobj \<Rightarrow> string \<Rightarrow> jsval" where
  "images_get imgs k = (case map_of imgs k of Some v \<Rightarrow> Prim v | None \<Rightarrow> inherited k)"

text \<open>
  An entry of the record \<^verbatim>\<open>assetsWithUrls\<close>. The program means it to be the object
  \<^verbatim>\<open>{id: nodeId}\<close> it creates, with the properties stored on it since. But
  \<^verbatim>\<open>assetsWithUrls[name] || {id: nodeId}\<close> reads through the prototype: for a name that
  \<^verbatim>\<open>Object.prototype\<close> has, the member is found, is truthy and becomes the entry, and the
  properties are stored on it. \<open>Inherited n ps\<close> is the member \<open>n\<close> with the properties \<open>ps\<close>
  the call has stored on it (before the call it has none of its own that can be listed).
\<close>

datatype entry = Plain props | Inherited string props

fun entry_props :: "entry \<Rightarrow> props" where
  "entry_props (Plain ps) = ps"
| "entry_props (Inherited n ps) = ps"

text \<open>\<^verbatim>\<open>entry[k] = v\<close>.\<close>

fun entry_set :: "string \<Rightarrow> jsval \<Rightarrow> entry \<Rightarrow> entry" where
  "entry_set k v (Plain ps) = Plain (obj_set k v ps)"
| "entry_set k v (Inherited n ps) = Inherited n (obj_set k v ps)"

text \<open>
  \<^verbatim>\<open>entry.id\<close> and \<^verbatim>\<open>entry[`@${scale}x`]\<close>: no inherited member has such a name, so the read
  is of the entry's own properties.
\<close>

definition entry_field :: "entry \<Rightarrow> string \<Rightarrow> jsval" where
  "entry_field e k = (case map_of (entry_props e) k of Some v \<Rightarrow> v | None \<Rightarrow> Prim Undefined)"

text \<open>\<^verbatim>\<open>assetsWithUrls[name]\<close>; \<open>None\<close> stands for \<^verbatim>\<open>undefined\<close>.\<close>

definition record_get :: "(string \<times> entry) list \<Rightarrow> string \<Rightarrow> entry option" where
  "record_get assetsWithUrls name =
     (case map_of assetsWithUrls name of
        Some e \<Rightarrow> Some e
      | None \<Rightarrow> if name \<in> set object_prototype_members then Some (Inherited name []) else None)"

text \<open>
  The body of the \<^verbatim>\<open>for\<close> loop over \<^verbatim>\<open>Object.keys(assetList)\<close> for one scale and its
  image list. Reading \<^verbatim>\<open>imageLists[scaleIndex].images[nodeId]\<close> throws when the body is
  \<^verbatim>\<open>null\<close> or has no \<^verbatim>\<open>images\<close> object. For the name \<^verbatim>\<open>__proto__\<close> the entry found is
  \<^verbatim>\<open>Object.prototype\<close> and the assignment creates no property of \<^verbatim>\<open>assetsWithUrls\<close>; the
  URL is then stored on \<^verbatim>\<open>Object.prototype\<close> itself, an effect on every object that this
  embedding does not carry (\<^verbatim>\<open>makeAssetList\<close> never yields that name).
\<close>

fun add_names :: "'n runtime \<Rightarrow> string list \<Rightarrow> jsobj \<Rightarrow> 'n jsnum \<Rightarrow> body
    \<Rightarrow> (string \<times> entry) list \<Rightarrow> exn + (string \<times> entry) list" where
  "add_names rt [] assetList scale imageList assetsWithUrls = Inr assetsWithUrls"
| "add_names rt (name # names) assetList scale imageList assetsWithUrls =
     (let nodeId = obj_get assetList name;
          entry = (case record_get assetsWithUrls name of
                     Some e \<Rightarrow> e
                   | None \<Rightarrow> Plain [(''id'', Prim nodeId)])
      in case imageList of
           JValue err doc (Val imgs) \<Rightarrow>
             add_names rt names assetList scale imageList
               (obj_set name
                  (entry_set (scale_key rt scale) (images_get imgs (to_string nodeId)) entry)
                  assetsWithUrls)
         | _ \<Rightarrow> Inl TypeError)"

text \<open>\<^verbatim>\<open>scales.forEach((scale, scaleIndex) => ...)\<close> over the scales and their image lists.\<close>

fun add_scales :: "'n runtime \<Rightarrow> ('n jsnum \<times> body) list \<Rightarrow> jsobj
    \<Rightarrow> (string \<times> entry) list \<Rightarrow> exn + (string \<times> entry) list" where
  "add_scales rt [] assetList assetsWithUrls = Inr assetsWithUrls"
| "add_scales rt ((scale, imageList) # rest) assetList assetsWithUrls =
     (case add_names rt (map fst assetList) assetList scale imageList assetsWithUrls of
        Inl e \<Rightarrow> Inl e
      | Inr assetsWithUrls' \<Rightarrow> add_scales rt rest assetList assetsWithUrls')"

text \<open>
  \<^verbatim>\<open>getAssetImages\<close>. The argument \<open>api\<close> is the \<^verbatim>\<open>get\<close> method of the client passed in;
  \<open>scales\<close> and \<open>format\<close> are optional, with the defaults \<^verbatim>\<open>[1]\<close> and \<^verbatim>\<open>'png'\<close>.
\<close>

definition getImageList :: "(string \<Rightarrow> (string \<times> 'n param) list option \<Rightarrow> exn + body)
    \<Rightarrow> string \<Rightarrow> jsobj \<Rightarrow> string \<Rightarrow> 'n jsnum \<Rightarrow> exn + body" where
  "getImageList api fileKey assetList format scale =
     api (''images/'' @ fileKey)
       (Some [(''ids'', PArr (map snd assetList)), (''format'', PStr format),
              (''scale'', PNum scale)])"

definition getAssetImages :: "('n::one) runtime
    \<Rightarrow> (string \<Rightarrow> (string \<times> 'n param) list option \<Rightarrow> exn + body)
    \<Rightarrow> string \<Rightarrow> jsobj \<Rightarrow> 'n jsnum list option \<Rightarrow> string option
    \<Rightarrow> exn + (string \<times> entry) list" where
  "getAssetImages rt api fileKey assetList scales_arg format_arg =
     (let scales = (case scales_arg of Some s \<Rightarrow> s | None \<Rightarrow> [Num 1]);
          format = (case format_arg of Some f \<Rightarrow> f | None \<Rightarrow> ''png'')
      in case promise_all (map (getImageList api fileKey assetList format) scales) of
           Inl e \<Rightarrow> Inl e
         | Inr imageLists \<Rightarrow> add_scales rt (zip scales imageLists) assetList [])"

section \<open>Orchestrator\<close>

text \<open>
  \<^verbatim>\<open>getFigmassets\<close>. \<open>frameIds\<close>, \<open>frameNames\<close>, \<open>scales\<close> and \<open>format\<close> are optional with
  the defaults of the source; the fetch function is the one the caller injects (or the
  ambient one); \<open>rt\<close> is the runtime.
\<close>

definition getFigmassets :: "('n::one) runtime
    \<Rightarrow> string js list option \<Rightarrow> string list option \<Rightarrow> string \<Rightarrow> string
    \<Rightarrow> 'n jsnum list option \<Rightarrow> string option
    \<Rightarrow> (string \<Rightarrow> (string \<times> string) list \<Rightarrow> exn + body response)
    \<Rightarrow> exn + (string \<times> entry) list" where
  "getFigmassets rt frameIds_arg frameNames_arg fileKey token scales_arg format_arg fetch =
     (let frameIds = (case frameIds_arg of Some x \<Rightarrow> x | None \<Rightarrow> []);
          frameNames = (case frameNames_arg of Some x \<Rightarrow> x | None \<Rightarrow> []);
          scales = (case scales_arg of Some s \<Rightarrow> s | None \<Rightarrow> [Num 1]);
          format = (case format_arg of Some f \<Rightarrow> f | None \<Rightarrow> ''png'');
          api = \<lparr>personalAccessToken = token, fetchFunc = fetch\<rparr>
      in case get rt api (''files/'' @ fileKey) None of
           Inl e \<Rightarrow> Inl e
         | Inr file \<Rightarrow>
            (case (if frameNames \<noteq> []
                   then (case findNodeIdsForNames file frameNames of
                           Inl e \<Rightarrow> Inl e
                         | Inr ids \<Rightarrow> Inr (frameIds @ ids))
                   else Inr frameIds) of
               Inl e \<Rightarrow> Inl e
             | Inr frameIds' \<Rightarrow>
                (case findNodesById file frameIds' of
                   Inl e \<Rightarrow> Inl e
                 | Inr found \<Rightarrow>
                    (let frames = filter truthy_obj found
                     in if frames = []
                        then Inl (Error (''No matching frames for '' @ array_join frameIds'
                                         @ '', '' @ array_join (map Val frameNames)))
                        else (case makeAssetList frames of
                                Inl e \<Rightarrow> Inl e
                              | Inr assetList \<Rightarrow>
                                  getAssetImages rt (get rt api) fileKey assetList
                                    (Some scales) (Some format))))))"

section \<open>Map integration\<close>

text \<open>
  \<^verbatim>\<open>Math.max\<close>: \<^verbatim>\<open>-Infinity\<close> without arguments, \<^verbatim>\<open>NaN\<close> when an argument is, else the
  greatest argument. The finite numbers are linearly ordered (the two zeros count as one
  number).
\<close>

fun max2 :: "('n::linorder) jsnum \<Rightarrow> 'n jsnum \<Rightarrow> 'n jsnum" where
  "max2 NaN y = NaN"
| "max2 x NaN = NaN"
| "max2 PosInfinity y = PosInfinity"
| "max2 x PosInfinity = PosInfinity"
| "max2 NegInfinity y = y"
| "max2 x NegInfinity = x"
| "max2 (Num a) (Num b) = Num (max a b)"

definition Math_max :: "('n::linorder) jsnum list \<Rightarrow> 'n jsnum" where
  "Math_max xs = foldl max2 NegInfinity xs"

text \<open>
  The scale \<^verbatim>\<open>addAssetsToMap\<close> selects for one entry: of the entry's keys, those starting
  with \<^verbatim>\<open>@\<close>, stripped of every character other than a digit or a dot and converted to
  numbers by the runtime; of these the greatest.
\<close>

definition selected_scale :: "('n::linorder) runtime \<Rightarrow> entry \<Rightarrow> 'n jsnum" where
  "selected_scale rt entry =
     Math_max (map (\<lambda>k. Number_of rt (filter (\<lambda>c. c \<in> set ''0123456789.'') k))
                 (filter (\<lambda>k. case k of [] \<Rightarrow> False | c # _ \<Rightarrow> c = CHR ''@'')
                    (map fst (entry_props entry))))"

text \<open>
  The calls made on the map handle. A call of \<^verbatim>\<open>loadImage\<close> is its URL and its callback;
  the callback, given the error and the image, makes one call of \<^verbatim>\<open>addImage\<close>.
\<close>

datatype ('i, 'r) add_image = AddImage string 'i 'r

record ('u, 'e, 'i, 'r) load_image =
  url :: 'u
  callback :: "'e \<Rightarrow> 'i \<Rightarrow> ('i, 'r) add_image"

definition addAssetsToMap :: "('n::linorder) runtime \<Rightarrow> (string \<times> entry) list
    \<Rightarrow> (jsval, 'e, 'i, 'n jsnum) load_image list" where
  "addAssetsToMap rt assets =
     map (\<lambda>iconId.
            let entry = (case map_of assets iconId of Some e \<Rightarrow> e | None \<Rightarrow> Plain []);
                scale = selected_scale rt entry
            in \<lparr>url = entry_field entry (''@'' @ number_string rt scale @ ''x''),
                callback = (\<lambda>error image. AddImage iconId image scale)\<rparr>)
         (map fst assets)"

section \<open>Static snapshot loader\<close>

text \<open>A descriptor of the manifest \<^verbatim>\<open>assets.json\<close>.\<close>

record 'r asset =
  asset_id :: string
  fileName :: string
  scale :: 'r

text \<open>
  \<^verbatim>\<open>path.replace(/([^/])$/, '$1/')\<close>: a last character other than \<^verbatim>\<open>/\<close> is replaced by
  itself followed by \<^verbatim>\<open>/\<close>; otherwise the string is unchanged.
\<close>

definition replace_last :: "string \<Rightarrow> string" where
  "replace_last path =
     (if path \<noteq> [] \<and> last path \<noteq> CHR ''/'' then butlast path @ [last path] @ ''/'' else path)"

definition normalize_path :: "string option \<Rightarrow> string" where
  "normalize_path path_arg =
     (let path = (case path_arg of Some p \<Rightarrow> p | None \<Rightarrow> [])
      in if path \<noteq> [] then replace_last path else path)"

text \<open>
  \<^verbatim>\<open>loadStoredFigmassets\<close>, with the ambient \<^verbatim>\<open>fetch\<close> as an argument. The result is the
  list of calls of \<^verbatim>\<open>map.loadImage\<close>.
\<close>

definition loadStoredFigmassets :: "(string \<Rightarrow> exn + 'r asset list response) \<Rightarrow> string option
    \<Rightarrow> exn + (string js, 'e, 'i, 'r) load_image list" where
  "loadStoredFigmassets fetch path_arg =
     (let path = normalize_path path_arg
      in case fetch (path @ ''assets.json'') of
           Inl e \<Rightarrow> Inl e
         | Inr r \<Rightarrow>
            (case json r of
               Inl e \<Rightarrow> Inl e
             | Inr assets \<Rightarrow>
                 Inr (map (\<lambda>a. \<lparr>url = Val (path @ fileName a),
                                 callback = (\<lambda>error image. AddImage (asset_id a) image (scale a))\<rparr>)
                        assets)))"

text \<open>A string ends with a single separator: its last character is \<^verbatim>\<open>/\<close>, the one before is not.\<close>

definition ends_with_single_slash :: "string \<Rightarrow> bool" where
  "ends_with_single_slash s \<longleftrightarrow>
     s \<noteq> [] \<and> last s = CHR ''/'' \<and> (butlast s = [] \<or> last (butlast s) \<noteq> CHR ''/'')"

section \<open>Notions of the statements and example inputs\<close>

text \<open>An example document, used to run the theorems on a concrete input.\<close>

definition example_tree :: node where
  "example_tree =
     Node ''0:0'' ''Document'' ''DOCUMENT'' (Some
       [Node ''1:1'' ''Icons'' ''GROUP'' (Some
          [Node ''1:2'' ''Icons'' ''FRAME'' (Some [Node ''1:3'' ''star'' ''VECTOR'' None])]),
        Node ''2:1'' ''Icons'' ''FRAME'' (Some [])])"

definition empty_id_tree :: node where
  "empty_id_tree =
     Node ''0:0'' ''Document'' ''DOCUMENT'' (Some
       [Node ''1:1'' ''Icons'' ''TEXT'' None,
        Node [] ''Icons'' ''FRAME'' (Some []),
        Node ''1:3'' ''Icons'' ''FRAME'' (Some [])])"

text \<open>Fetch functions that answer every request with one fixed response.\<close>

definition fetch_always :: "body response \<Rightarrow> string \<Rightarrow> (string \<times> string) list \<Rightarrow> exn + body response" where
  "fetch_always r u h = Inr r"

definition not_found_null :: "body response" where
  "not_found_null = \<lparr>status = 404, json = Inr JNull\<rparr>"

definition not_found_no_err :: "body response" where
  "not_found_no_err = \<lparr>status = 404, json = Inr (JValue Undefined Undefined Undefined)\<rparr>"

definition not_found_unparsable :: "body response" where
  "not_found_unparsable = \<lparr>status = 404, json = Inl SyntaxError\<rparr>"

definition forbidden_with_err :: "body response" where
  "forbidden_with_err = \<lparr>status = 403, json = Inr (JValue (Val ''Invalid token'') Undefined Undefined)\<rparr>"

definition example_api :: "body response \<Rightarrow> figmaApi" where
  "example_api r = \<lparr>personalAccessToken = ''secret'', fetchFunc = fetch_always r\<rparr>"

text \<open>
  The name-to-identifier entries of the immediate children of the frames, frame by frame
  and child by child, as the specification words the Asset List Builder.
\<close>

definition child_entries :: "node js list \<Rightarrow> (string \<times> string js) list" where
  "child_entries frames =
     concat (map (\<lambda>frame. case frame of
                    Val f \<Rightarrow> (case children f of
                                Some ns \<Rightarrow> map (\<lambda>n. (node_name n, Val (node_id n))) ns
                              | None \<Rightarrow> [])
                  | _ \<Rightarrow> []) frames)"

definition two_frames :: "node js list" where
  "two_frames =
     [Val (Node ''1:0'' ''Light'' ''FRAME'' (Some
        [Node ''1:1'' ''icon'' ''VECTOR'' (Some [Node ''1:2'' ''stroke'' ''VECTOR'' None]),
         Node ''1:3'' ''logo'' ''VECTOR'' None])),
      Undefined,
      Val (Node ''2:0'' ''Dark'' ''FRAME'' (Some [Node ''2:1'' ''icon'' ''VECTOR'' None]))]"

text \<open>
  What the merge of \<^verbatim>\<open>getAssetImages\<close> computes, entry by entry. \<open>images_of\<close> is the
  \<^verbatim>\<open>images\<close> object of a response body, \<open>image_url\<close> the read of an identifier in it.
  \<open>entry_map\<close> reads an Image Record as a map from asset names to maps from keys to values,
  \<open>start_entry\<close> is the entry an asset has before a scale is stored (a new object holds only
  \<^verbatim>\<open>id\<close>, an inherited member nothing), and \<open>set_scales\<close> stores the URLs of a list of scales
  and responses in order.
\<close>

definition images_of :: "body \<Rightarrow> jsobj option" where
  "images_of b = (case b of JValue err doc (Val imgs) \<Rightarrow> Some imgs | _ \<Rightarrow> None)"

definition image_url :: "body \<Rightarrow> string js \<Rightarrow> jsval" where
  "image_url b nodeId =
     (case images_of b of Some imgs \<Rightarrow> images_get imgs (to_string nodeId) | None \<Rightarrow> Prim Undefined)"

definition entry_map :: "(string \<times> entry) list \<Rightarrow> string \<Rightarrow> (string \<rightharpoonup> jsval) option" where
  "entry_map r name = map_option (\<lambda>e. map_of (entry_props e)) (map_of r name)"

definition start_entry :: "(string \<times> entry) list \<Rightarrow> jsobj \<Rightarrow> string \<Rightarrow> (string \<rightharpoonup> jsval)" where
  "start_entry r assetList name =
     (case entry_map r name of
        Some m \<Rightarrow> m
      | None \<Rightarrow> if name \<in> set object_prototype_members then Map.empty
                else [''id'' \<mapsto> Prim (obj_get assetList name)])"

fun set_scales :: "'n runtime \<Rightarrow> ('n jsnum \<times> body) list \<Rightarrow> string js \<Rightarrow> (string \<rightharpoonup> jsval)
    \<Rightarrow> (string \<rightharpoonup> jsval)" where
  "set_scales rt [] nodeId m = m"
| "set_scales rt ((s, b) # ps) nodeId m =
     set_scales rt ps nodeId (m(scale_key rt s \<mapsto> image_url b nodeId))"

text \<open>
  A runtime for the examples, whose finite numbers are the natural numbers: it prints a
  number in decimal digits and reads a text of decimal digits (the empty text is 0); other
  texts are not numbers of it, and the examples use none.
\<close>

definition nat_runtime :: "nat runtime" where
  "nat_runtime =
     \<lparr>String_of = show_nat,
      Number_of = (\<lambda>s. if list_all is_digit s then Num (digits_value s) else NaN)\<rparr>"

text \<open>
  An image service that renders nodes 1 and 2 at scale 1 and only node 1 at scale 2.
\<close>

definition example_images :: "string \<Rightarrow> (string \<times> nat param) list option \<Rightarrow> exn + body" where
  "example_images endpoint params =
     (case params of
        None \<Rightarrow> Inl NetworkError
      | Some ps \<Rightarrow>
          if map_of ps ''scale'' = Some (PNum (Num 1))
          then Inr (JValue Null Undefined (Val [(''1'', Val ''urlA1''), (''2'', Val ''urlB1'')]))
          else if map_of ps ''scale'' = Some (PNum (Num 2))
          then Inr (JValue Null Undefined (Val [(''1'', Val ''urlA2'')]))
          else Inl NetworkError)"

text \<open>An image service that answers every request with the same \<^verbatim>\<open>images\<close> object.\<close>

definition images_always :: "jsobj \<Rightarrow> string \<Rightarrow> (string \<times> 'n param) list option \<Rightarrow> exn + body" where
  "images_always imgs endpoint params = Inr (JValue Null Undefined (Val imgs))"

text \<open>A frame with a layer named \<^verbatim>\<open>__proto__\<close>.\<close>

definition proto_frame :: "node js list" where
  "proto_frame =
     [Val (Node ''1:0'' ''Icons'' ''FRAME'' (Some
        [Node ''1:1'' ''__proto__'' ''VECTOR'' None,
         Node ''1:2'' ''icon'' ''VECTOR'' None]))]"

text \<open>A frame with a layer named \<^verbatim>\<open>constructor\<close>.\<close>

definition constructor_frame :: "node js list" where
  "constructor_frame =
     [Val (Node ''1:0'' ''Icons'' ''FRAME'' (Some [Node ''1:2'' ''constructor'' ''VECTOR'' None]))]"

definition file_ok :: "body response" where
  "file_ok = \<lparr>status = 200, json = Inr (JValue Undefined (Val example_tree) Undefined)\<rparr>"

text \<open>
  An Image Record: one asset rendered at the scales 1 and 3, and one whose rendering at
  scale 2 the service did not return, as the resolver records it.
\<close>

definition example_assets :: "(string \<times> entry) list" where
  "example_assets =
     [(''pin'', Plain [(''id'', Prim (Val ''1:2'')), (''@1x'', Prim (Val ''u1'')),
                        (''@3x'', Prim (Val ''u3''))]),
      (''dot'', Plain [(''id'', Prim (Val ''1:5'')), (''@1x'', Prim (Val ''v1'')),
                        (''@2x'', Prim Undefined)])]"

text \<open>A static host serving the manifest of one asset under \<^verbatim>\<open>assets/\<close>.\<close>

definition manifest_a :: "nat asset list response" where
  "manifest_a = \<lparr>status = 200, json = Inr [\<lparr>asset_id = ''a'', fileName = ''a.png'', scale = 1\<rparr>]\<rparr>"

definition fetch_manifest :: "string \<Rightarrow> exn + nat asset list response" where
  "fetch_manifest u = (if u = ''assets/assets.json'' then Inr manifest_a else Inl NetworkError)"

section \<open>Properties of the document search\<close>

lemma find_append_eq:
  "List.find P (xs @ ys) = (case List.find P xs of Some x \<Rightarrow> Some x | None \<Rightarrow> List.find P ys)"
  by (induction xs) auto

lemma array_find_Cons:
  "array_find p (x # xs) = (if p x then x else array_find p xs)"
  by (simp add: array_find_def)

lemma array_find_Nil: "array_find p [] = Undefined"
  by (simp add: array_find_def)

text \<open>
  \<^verbatim>\<open>children.map(f).find(Boolean)\<close> against the first match in the concatenated traversals
  of the children: if every child's result is the child's first match when that match is
  acceptable (and then truthy), and falsy when the child has no match, then the array's
  result is the first match overall, and \<^verbatim>\<open>undefined\<close> when there is none.
\<close>

lemma array_find_children:
  assumes "\<And>c. c \<in> set ns \<Longrightarrow>
             (case List.find P (g c) of
                Some n \<Rightarrow> ok n \<longrightarrow> f c = r n \<and> p (r n)
              | None \<Rightarrow> \<not> p (f c))"
  shows "case List.find P (concat (map g ns)) of
           Some n \<Rightarrow> ok n \<longrightarrow> array_find p (map f ns) = r n \<and> p (r n)
         | None \<Rightarrow> array_find p (map f ns) = Undefined"
  using assms
proof (induction ns)
  case Nil
  then show ?case by (simp add: array_find_Nil)
next
  case (Cons c cs)
  have c: "case List.find P (g c) of
             Some n \<Rightarrow> ok n \<longrightarrow> f c = r n \<and> p (r n) | None \<Rightarrow> \<not> p (f c)"
    using Cons.prems by simp
  have cs: "case List.find P (concat (map g cs)) of
              Some n \<Rightarrow> ok n \<longrightarrow> array_find p (map f cs) = r n \<and> p (r n)
            | None \<Rightarrow> array_find p (map f cs) = Undefined"
    using Cons.IH Cons.prems by simp
  show ?case
  proof (cases "List.find P (g c)")
    case None
    with c cs show ?thesis
      by (auto simp: find_append_eq array_find_Cons split: option.splits)
  next
    case (Some n)
    with c show ?thesis
      by (auto simp: find_append_eq array_find_Cons split: option.splits)
  qed
qed

lemma findNode_preorder:
  "case first_with_id nodeId t of
     Some n \<Rightarrow> findNode nodeId t = Val n
   | None \<Rightarrow> absent (findNode nodeId t)"
proof (induction nodeId t rule: findNode.induct)
  case (1 nodeId i n t cs)
  show ?case
  proof (cases "nodeId = Val i")
    case True
    then show ?thesis by (simp add: first_with_id_def has_id_def)
  next
    case False
    show ?thesis
    proof (cases cs)
      case None
      with False show ?thesis by (simp add: first_with_id_def has_id_def)
    next
      case (Some ns)
      have IH: "case List.find (has_id nodeId) (preorder c) of
             Some n \<Rightarrow> True \<longrightarrow> findNode nodeId c = Val n \<and> truthy_obj (Val n)
           | None \<Rightarrow> \<not> truthy_obj (findNode nodeId c)" if "c \<in> set ns" for c
        using "1.IH" [OF False Some that]
        by (cases "findNode nodeId c") (simp_all add: first_with_id_def split: option.splits)
      have "case List.find (has_id nodeId) (concat (map preorder ns)) of
              Some n \<Rightarrow> True \<longrightarrow> array_find truthy_obj (map (findNode nodeId) ns) = Val n
                          \<and> truthy_obj (Val n)
            | None \<Rightarrow> array_find truthy_obj (map (findNode nodeId) ns) = Undefined"
        using IH by (rule array_find_children)
      with False Some show ?thesis
        by (simp add: first_with_id_def has_id_def split: option.splits)
    qed
  qed
qed

lemma findNameInNode_preorder:
  "case first_frame_named name t of
     Some n \<Rightarrow> node_id n \<noteq> [] \<longrightarrow> findNameInNode name t = Val (node_id n)
   | None \<Rightarrow> absent (findNameInNode name t)"
proof (induction name t rule: findNameInNode.induct)
  case (1 name i n t cs)
  show ?case
  proof (cases "name = n \<and> t = ''FRAME''")
    case True
    then show ?thesis by (simp add: first_frame_named_def is_frame_named_def)
  next
    case False
    show ?thesis
    proof (cases cs)
      case None
      with False show ?thesis by (auto simp: first_frame_named_def is_frame_named_def)
    next
      case (Some ns)
      have IH: "case List.find (is_frame_named name) (preorder c) of
             Some n \<Rightarrow> node_id n \<noteq> [] \<longrightarrow> findNameInNode name c = Val (node_id n)
                           \<and> truthy_str (Val (node_id n))
           | None \<Rightarrow> \<not> truthy_str (findNameInNode name c)" if "c \<in> set ns" for c
        using "1.IH" [OF False Some that]
        by (cases "findNameInNode name c") (simp_all add: first_frame_named_def split: option.splits)
      have "case List.find (is_frame_named name) (concat (map preorder ns)) of
              Some n \<Rightarrow> node_id n \<noteq> [] \<longrightarrow>
                 array_find truthy_str (map (findNameInNode name) ns) = Val (node_id n)
                 \<and> truthy_str (Val (node_id n))
            | None \<Rightarrow> array_find truthy_str (map (findNameInNode name) ns) = Undefined"
        using IH by (rule array_find_children)
      with False Some show ?thesis
        by (auto simp: first_frame_named_def is_frame_named_def split: option.splits)
    qed
  qed
qed

text \<open>
  Claim C8. For every document tree and every list of requested identifiers,
  \<^verbatim>\<open>findNodesById\<close> returns a list of the same length, in input order; each position holds
  the result of a search of its own from the root, which is the first node of the
  pre-order traversal with the requested identifier, and an absent result (\<^verbatim>\<open>null\<close> or
  \<^verbatim>\<open>undefined\<close>) when the tree has no such node.
\<close>

theorem findNodesById_first_match:
  "\<exists>found. findNodesById (JValue err (Val tree) imgs) nodeIds = Inr found
      \<and> length found = length nodeIds
      \<and> (\<forall>k < length nodeIds.
            found ! k = findNode (nodeIds ! k) tree
            \<and> (case first_with_id (nodeIds ! k) tree of
                   Some n \<Rightarrow> found ! k = Val n
                 | None \<Rightarrow> absent (found ! k)))"
proof (cases "nodeIds = []")
  case True
  then show ?thesis by (simp add: findNodesById_def)
next
  case False
  then have "findNodesById (JValue err (Val tree) imgs) nodeIds
      = Inr (map (\<lambda>nodeId. findNode nodeId tree) nodeIds)"
    by (simp add: findNodesById_def file_document_def)
  moreover have "\<forall>k < length nodeIds.
      map (\<lambda>nodeId. findNode nodeId tree) nodeIds ! k = findNode (nodeIds ! k) tree
      \<and> (case first_with_id (nodeIds ! k) tree of
             Some n \<Rightarrow> map (\<lambda>nodeId. findNode nodeId tree) nodeIds ! k = Val n
           | None \<Rightarrow> absent (map (\<lambda>nodeId. findNode nodeId tree) nodeIds ! k))"
  proof (intro allI impI conjI)
    fix k assume k: "k < length nodeIds"
    then show "map (\<lambda>nodeId. findNode nodeId tree) nodeIds ! k = findNode (nodeIds ! k) tree"
      by simp
    from k findNode_preorder [of "nodeIds ! k" tree]
    show "case first_with_id (nodeIds ! k) tree of
             Some n \<Rightarrow> map (\<lambda>nodeId. findNode nodeId tree) nodeIds ! k = Val n
           | None \<Rightarrow> absent (map (\<lambda>nodeId. findNode nodeId tree) nodeIds ! k)"
      by (simp split: option.splits)
  qed
  ultimately show ?thesis by simp
qed

theorem findNodesById_first_match_witness:
  "findNodesById (JValue Undefined (Val example_tree) Undefined) [Val ''1:3'', Val ''9:9'']
     = Inr [Val (Node ''1:3'' ''star'' ''VECTOR'' None), Undefined]"
  using findNodesById_first_match [of Undefined example_tree Undefined "[Val ''1:3'', Val ''9:9'']"]
  by (simp add: example_tree_def first_with_id_def has_id_def findNodesById_def
      file_document_def array_find_def)

text \<open>
  Claim C2. \<^verbatim>\<open>findNodeIdsForNames\<close> is to return the identifier of the first node of the
  traversal whose name is N and whose type is \<^verbatim>\<open>FRAME\<close>. The code does not when that node
  lies below the root and its identifier is the empty string: \<^verbatim>\<open>.find(Boolean)\<close> takes the
  empty string for "not found" and the search goes on, here to the later frame \<^verbatim>\<open>1:3\<close>. The
  same identifier is returned as it is when the node is the root, and \<^verbatim>\<open>findNodesById\<close>
  finds the node by it.
\<close>

theorem findNodeIdsForNames_empty_id:
  "first_frame_named ''Icons'' empty_id_tree = Some (Node [] ''Icons'' ''FRAME'' (Some []))
   \<and> findNodeIdsForNames (JValue Undefined (Val empty_id_tree) Undefined) [''Icons'']
       = Inr [Val ''1:3'']
   \<and> findNodeIdsForNames (JValue Undefined (Val empty_id_tree) Undefined) [''Icons'']
       \<noteq> Inr [Val (node_id (Node [] ''Icons'' ''FRAME'' (Some [])))]
   \<and> findNodeIdsForNames
         (JValue Undefined (Val (Node [] ''Icons'' ''FRAME'' (Some []))) Undefined) [''Icons'']
       = Inr [Val []]
   \<and> findNodesById (JValue Undefined (Val empty_id_tree) Undefined) [Val []]
       = Inr [Val (Node [] ''Icons'' ''FRAME'' (Some []))]"
  by (simp add: empty_id_tree_def first_frame_named_def is_frame_named_def
      findNodeIdsForNames_def findNodesById_def file_document_def array_find_def)

text \<open>
  Where the identifier of that node is not the empty string the code does what the claim
  says: \<^verbatim>\<open>findNodeIdsForNames\<close> returns at the position of N the identifier of the first node
  of the pre-order traversal whose name is N and whose type is \<^verbatim>\<open>FRAME\<close>; nodes named N of
  another type are skipped, wherever they occur, and the search continues into their
  children. Without such a node the result is absent.
\<close>

lemma findNodeIdsForNames_typed_match:
  "\<exists>ids. findNodeIdsForNames (JValue err (Val tree) imgs) names = Inr ids
      \<and> length ids = length names
      \<and> (\<forall>k < length names.
            case first_frame_named (names ! k) tree of
              Some n \<Rightarrow> node_id n \<noteq> [] \<longrightarrow> ids ! k = Val (node_id n)
            | None \<Rightarrow> absent (ids ! k))"
proof (cases "names = []")
  case True
  then show ?thesis by (simp add: findNodeIdsForNames_def)
next
  case False
  then have "findNodeIdsForNames (JValue err (Val tree) imgs) names
      = Inr (map (\<lambda>name. findNameInNode name tree) names)"
    by (simp add: findNodeIdsForNames_def file_document_def)
  moreover have "\<forall>k < length names.
      case first_frame_named (names ! k) tree of
        Some n \<Rightarrow> node_id n \<noteq> [] \<longrightarrow>
          map (\<lambda>name. findNameInNode name tree) names ! k = Val (node_id n)
      | None \<Rightarrow> absent (map (\<lambda>name. findNameInNode name tree) names ! k)"
  proof (intro allI impI)
    fix k assume k: "k < length names"
    with findNameInNode_preorder [of "names ! k" tree]
    show "case first_frame_named (names ! k) tree of
        Some n \<Rightarrow> node_id n \<noteq> [] \<longrightarrow>
          map (\<lambda>name. findNameInNode name tree) names ! k = Val (node_id n)
      | None \<Rightarrow> absent (map (\<lambda>name. findNameInNode name tree) names ! k)"
      by (simp split: option.splits)
  qed
  ultimately show ?thesis by simp
qed

text \<open>
  In the example document the group \<^verbatim>\<open>1:1\<close> named \<^verbatim>\<open>Icons\<close> comes first in the traversal
  and is skipped; the frame \<^verbatim>\<open>1:2\<close> among its children is the result.
\<close>

lemma findNodeIdsForNames_typed_match_example:
  "first_frame_named ''Icons'' example_tree
       = Some (Node ''1:2'' ''Icons'' ''FRAME'' (Some [Node ''1:3'' ''star'' ''VECTOR'' None]))
   \<and> ''1:2'' \<noteq> []
   \<and> findNodeIdsForNames (JValue Undefined (Val example_tree) Undefined) [''Icons'', ''Missing'']
       = Inr [Val ''1:2'', Undefined]"
  using findNodeIdsForNames_typed_match [of Undefined example_tree Undefined "[''Icons'', ''Missing'']"]
  by (simp add: example_tree_def first_frame_named_def is_frame_named_def
      findNodeIdsForNames_def file_document_def array_find_def)

section \<open>Properties of the API client\<close>

lemma get_error_status:
  assumes "fetchFunc this (request_url rt api params)
             [(''X-Figma-Token'', personalAccessToken this)] = Inr r"
    and "400 \<le> status r"
  shows "get rt this api params =
           Inl (Error (''HTTP error '' @ show_nat (status r) @ '' accessing Figma. ''
                       @ http_extra (json r)))"
  using assms by (simp add: get_def)

lemma show_nat_404: "show_nat 404 = ''404''"
  by (simp add: show_nat.simps digit_char_def)

lemma show_nat_403: "show_nat 403 = ''403''"
  by (simp add: show_nat.simps digit_char_def)

text \<open>
  Claim C3. For every response whose status is 400 or more, \<^verbatim>\<open>get\<close> fails with an error
  whose message includes the status code. The error is raised whatever the outcome of
  reading the body: when \<^verbatim>\<open>response.json()\<close> rejects, the error is the same HTTP error, with
  nothing after the fixed text.
\<close>

theorem get_http_error_unconditional:
  assumes "fetchFunc this (request_url rt api params)
             [(''X-Figma-Token'', personalAccessToken this)] = Inr r"
    and "400 \<le> status r"
  shows "\<exists>detail. get rt this api params =
             Inl (Error (''HTTP error '' @ show_nat (status r) @ '' accessing Figma. '' @ detail))
           \<and> sublist (show_nat (status r))
               (''HTTP error '' @ show_nat (status r) @ '' accessing Figma. '' @ detail)
           \<and> (\<forall>e. json r = Inl e \<longrightarrow> detail = [])
           \<and> (\<forall>s d i. json r = Inr (JValue (Val s) d i) \<longrightarrow> detail = s)"
proof -
  have "sublist (show_nat (status r))
          (''HTTP error '' @ show_nat (status r) @ '' accessing Figma. '' @ http_extra (json r))"
    by (rule sublist_appendI)
  moreover have "\<forall>e. json r = Inl e \<longrightarrow> http_extra (json r) = []"
    by (simp add: http_extra_def)
  moreover have "\<forall>s d i. json r = Inr (JValue (Val s) d i) \<longrightarrow> http_extra (json r) = s"
    by (simp add: http_extra_def)
  ultimately show ?thesis
    using get_error_status [OF assms] by blast
qed

theorem get_http_error_unconditional_witness:
  "get nat_runtime (example_api not_found_unparsable) ''files/abc'' None
     = Inl (Error ''HTTP error 404 accessing Figma. '')
   \<and> get nat_runtime (example_api forbidden_with_err) ''files/abc'' None
     = Inl (Error ''HTTP error 403 accessing Figma. Invalid token'')"
proof -
  have a: "fetchFunc (example_api not_found_unparsable) (request_url nat_runtime ''files/abc'' None)
             [(''X-Figma-Token'', personalAccessToken (example_api not_found_unparsable))]
           = Inr not_found_unparsable"
    by (simp add: example_api_def fetch_always_def)
  have b: "fetchFunc (example_api forbidden_with_err) (request_url nat_runtime ''files/abc'' None)
             [(''X-Figma-Token'', personalAccessToken (example_api forbidden_with_err))]
           = Inr forbidden_with_err"
    by (simp add: example_api_def fetch_always_def)
  have a4: "400 \<le> status not_found_unparsable"
    by (simp add: not_found_unparsable_def)
  have b4: "400 \<le> status forbidden_with_err"
    by (simp add: forbidden_with_err_def)
  show ?thesis
    using get_http_error_unconditional [OF a a4] get_http_error_unconditional [OF b b4]
    by (auto simp: not_found_unparsable_def forbidden_with_err_def show_nat_404 show_nat_403)
qed

text \<open>
  Claim C10, as stated, fails for the body \<^verbatim>\<open>null\<close>: it parses as JSON and has no \<^verbatim>\<open>err\<close>
  field, but reading \<^verbatim>\<open>.err\<close> from it throws, so the message ends with the empty detail
  and does not contain \<^verbatim>\<open>undefined\<close>.
\<close>

theorem get_null_body_counterexample:
  "400 \<le> status not_found_null
   \<and> json not_found_null = Inr JNull
   \<and> get nat_runtime (example_api not_found_null) ''files/abc'' None
       = Inl (Error ''HTTP error 404 accessing Figma. '')
   \<and> \<not> sublist ''undefined'' ''HTTP error 404 accessing Figma. ''"
  by (simp add: not_found_null_def example_api_def fetch_always_def get_def http_extra_def
      show_nat_404 sublist_Cons_right)

text \<open>
  Claim C10, amended. For every response with status 400 or more whose body parses as a
  JSON value other than \<^verbatim>\<open>null\<close> and has no \<^verbatim>\<open>err\<close> field, the message of the error
  thrown by \<^verbatim>\<open>get\<close> ends with the text \<^verbatim>\<open>undefined\<close> after the status code; when parsing
  the body throws, or the body is \<^verbatim>\<open>null\<close>, the message ends with an empty detail.
\<close>

theorem get_error_detail:
  assumes "fetchFunc this (request_url rt api params)
             [(''X-Figma-Token'', personalAccessToken this)] = Inr r"
    and "400 \<le> status r"
  shows "((\<exists>d i. json r = Inr (JValue Undefined d i)) \<longrightarrow>
            get rt this api params =
              Inl (Error (''HTTP error '' @ show_nat (status r) @ '' accessing Figma. undefined'')))
       \<and> ((\<exists>e. json r = Inl e) \<or> json r = Inr JNull \<longrightarrow>
            get rt this api params =
              Inl (Error (''HTTP error '' @ show_nat (status r) @ '' accessing Figma. '')))"
  using get_error_status [OF assms] by (auto simp: http_extra_def)

theorem get_error_detail_witness:
  "get nat_runtime (example_api not_found_no_err) ''files/abc'' None
     = Inl (Error ''HTTP error 404 accessing Figma. undefined'')
   \<and> get nat_runtime (example_api not_found_unparsable) ''files/abc'' None
     = Inl (Error ''HTTP error 404 accessing Figma. '')"
proof -
  have a: "fetchFunc (example_api not_found_no_err) (request_url nat_runtime ''files/abc'' None)
             [(''X-Figma-Token'', personalAccessToken (example_api not_found_no_err))]
           = Inr not_found_no_err"
    by (simp add: example_api_def fetch_always_def)
  have b: "fetchFunc (example_api not_found_unparsable) (request_url nat_runtime ''files/abc'' None)
             [(''X-Figma-Token'', personalAccessToken (example_api not_found_unparsable))]
           = Inr not_found_unparsable"
    by (simp add: example_api_def fetch_always_def)
  have a4: "400 \<le> status not_found_no_err"
    by (simp add: not_found_no_err_def)
  have b4: "400 \<le> status not_found_unparsable"
    by (simp add: not_found_unparsable_def)
  show ?thesis
    using get_error_detail [OF a a4] get_error_detail [OF b b4]
    by (simp add: not_found_no_err_def not_found_unparsable_def show_nat_404)
qed

section \<open>Properties of the asset list builder\<close>

lemma map_of_insert_index:
  "k \<notin> fst ` set obj \<Longrightarrow> map_of (insert_index k v obj) = (map_of obj)(k \<mapsto> v)"
proof (induction obj)
  case Nil
  then show ?case by simp
next
  case (Cons p obj)
  then show ?case
    by (cases p) (auto simp: fun_eq_iff)
qed

lemma map_of_replace:
  "k \<in> fst ` set obj \<Longrightarrow>
   map_of (map (\<lambda>(k', v'). if k' = k then (k', v) else (k', v')) obj) = (map_of obj)(k \<mapsto> v)"
proof (induction obj)
  case Nil
  then show ?case by simp
next
  case (Cons p obj)
  show ?case
  proof (cases "k \<in> fst ` set obj")
    case True
    with Cons.IH show ?thesis by (cases p) (auto simp: fun_eq_iff)
  next
    case False
    then have "map (\<lambda>(k', v'). if k' = k then (k', v) else (k', v')) obj = obj"
      by (induction obj) auto
    with Cons.prems False show ?thesis by (cases p) (auto simp: fun_eq_iff)
  qed
qed

lemma map_of_append_new:
  "k \<notin> fst ` set obj \<Longrightarrow> map_of (obj @ [(k, v)]) = (map_of obj)(k \<mapsto> v)"
  by (induction obj) (auto simp: fun_eq_iff)

lemma map_of_obj_set:
  "k \<in> fst ` set obj \<or> k \<noteq> ''__proto__'' \<Longrightarrow> map_of (obj_set k v obj) = (map_of obj)(k \<mapsto> v)"
  unfolding obj_set_def
  using map_of_insert_index [of k obj v] map_of_replace [of k obj v] map_of_append_new [of k obj v]
  by presburger

lemma obj_set_proto: "''__proto__'' \<notin> fst ` set obj \<Longrightarrow> obj_set ''__proto__'' v obj = obj"
  by (simp add: obj_set_def)

lemma set_insert_index: "set (insert_index k v obj) = insert (k, v) (set obj)"
  by (induction obj) (auto split: if_splits)

lemma keys_obj_set:
  "fst ` set (obj_set k v obj)
     = (if k = ''__proto__'' then fst ` set obj else insert k (fst ` set obj))"
proof -
  have "fst ` set (map (\<lambda>(k', v'). if k' = k then (k', v) else (k', v')) obj) = fst ` set obj"
    by (induction obj) auto
  then show ?thesis
    by (cases "k \<in> fst ` set obj") (simp_all add: obj_set_def set_insert_index insert_absorb)
qed

lemma map_of_add_children:
  assumes "\<forall>n \<in> set ns. node_name n \<noteq> ''__proto__''"
  shows "map_of (add_children ns a)
     = map_of a ++ map_of (rev (map (\<lambda>n. (node_name n, Val (node_id n))) ns))"
  using assms
proof (induction ns arbitrary: a)
  case Nil
  then show ?case by simp
next
  case (Cons n ns)
  then have n: "node_name n \<noteq> ''__proto__''" and ns: "\<forall>n \<in> set ns. node_name n \<noteq> ''__proto__''"
    by simp_all
  have "map_of (obj_set (node_name n) (Val (node_id n)) a)
      = (map_of a)(node_name n \<mapsto> Val (node_id n))"
    using n by (simp add: map_of_obj_set)
  then show ?case
    using Cons.IH [OF ns, of "obj_set (node_name n) (Val (node_id n)) a"]
    by (simp add: fun_eq_iff map_add_def split: option.splits)
qed

lemma child_entries_Cons:
  "child_entries (frame # frames) =
     (case frame of
        Val f \<Rightarrow> (case children f of
                    Some ns \<Rightarrow> map (\<lambda>n. (node_name n, Val (node_id n))) ns
                  | None \<Rightarrow> [])
      | _ \<Rightarrow> []) @ child_entries frames"
  by (simp add: child_entries_def)

lemma add_frames_entries:
  assumes "\<forall>f. Val f \<in> set frames \<longrightarrow> children f \<noteq> None"
    and "''__proto__'' \<notin> fst ` set (child_entries frames)"
  shows "\<exists>a'. add_frames (filter truthy_obj frames) a = Inr a'
           \<and> map_of a' = map_of a ++ map_of (rev (child_entries frames))"
  using assms
proof (induction frames arbitrary: a)
  case Nil
  then show ?case by (simp add: child_entries_def)
next
  case (Cons frame frames)
  from Cons.prems(2) have rest: "''__proto__'' \<notin> fst ` set (child_entries frames)"
    by (simp add: child_entries_Cons image_Un)
  show ?case
  proof (cases frame)
    case (Val f)
    with Cons.prems obtain ns where ns: "children f = Some ns" by auto
    from Cons.prems(2) Val ns have np: "\<forall>n \<in> set ns. node_name n \<noteq> ''__proto__''"
      by (force simp: child_entries_Cons image_Un)
    from Cons.prems have "\<forall>f. Val f \<in> set frames \<longrightarrow> children f \<noteq> None" by simp
    from Cons.IH [OF this rest, of "add_children ns a"]
    obtain a' where a': "add_frames (filter truthy_obj frames) (add_children ns a) = Inr a'"
      "map_of a' = map_of (add_children ns a) ++ map_of (rev (child_entries frames))"
      by blast
    from a' Val ns show ?thesis
      by (simp add: child_entries_Cons map_of_add_children [OF np])
  next
    case Undefined
    with Cons.IH [of a] Cons.prems(1) rest show ?thesis by (simp add: child_entries_Cons)
  next
    case Null
    with Cons.IH [of a] Cons.prems(1) rest show ?thesis by (simp add: child_entries_Cons)
  qed
qed

lemma map_of_rev_entries_Some:
  assumes "c \<in> set cs"
  shows "\<exists>c' \<in> set cs. node_name c' = node_name c
           \<and> map_of (rev (map (\<lambda>n. (node_name n, Val (node_id n))) cs)) (node_name c)
               = Some (Val (node_id c'))"
proof -
  let ?e = "rev (map (\<lambda>n. (node_name n, Val (node_id n))) cs)"
  have "node_name c \<in> fst ` set ?e" using assms by force
  then have "map_of ?e (node_name c) \<noteq> None"
    by (simp only: map_of_eq_None_iff not_not)
  then obtain v where v: "map_of ?e (node_name c) = Some v" by blast
  then have "(node_name c, v) \<in> set ?e" by (rule map_of_SomeD)
  then obtain c' where "c' \<in> set cs" "node_name c' = node_name c" "v = Val (node_id c')"
    by auto
  with v show ?thesis by blast
qed

text \<open>The list \<^verbatim>\<open>makeAssetList\<close> returns never has a property \<^verbatim>\<open>__proto__\<close>.\<close>

lemma add_children_no_proto:
  "''__proto__'' \<notin> fst ` set a \<Longrightarrow> ''__proto__'' \<notin> fst ` set (add_children ns a)"
  by (induction ns arbitrary: a) (simp_all add: keys_obj_set)

lemma add_frames_no_proto:
  "''__proto__'' \<notin> fst ` set a \<Longrightarrow> add_frames frames a = Inr a'
     \<Longrightarrow> ''__proto__'' \<notin> fst ` set a'"
proof (induction frames arbitrary: a)
  case Nil
  then show ?case by simp
next
  case (Cons frame frames)
  from Cons.prems(2) obtain f ns where f: "frame = Val f" "children f = Some ns"
    by (cases frame; cases "children (case frame of Val f \<Rightarrow> f)") simp_all
  with Cons.prems(2) have "add_frames frames (add_children ns a) = Inr a'" by simp
  moreover from Cons.prems(1) have "''__proto__'' \<notin> fst ` set (add_children ns a)"
    by (rule add_children_no_proto)
  ultimately show ?case by (rule Cons.IH [rotated])
qed

lemma makeAssetList_no_proto:
  "makeAssetList frames = Inr assetList \<Longrightarrow> ''__proto__'' \<notin> fst ` set assetList"
  using add_frames_no_proto [of "[]" "filter truthy_obj frames" assetList]
  by (simp add: makeAssetList_def)

text \<open>
  Claim C7. \<^verbatim>\<open>makeAssetList\<close> is to insert a name-to-identifier entry for each immediate
  child of each frame. The code does not for a child named \<^verbatim>\<open>__proto__\<close>: the assignment
  \<^verbatim>\<open>assetList[node.name] = node.id\<close> on the object made by \<^verbatim>\<open>{}\<close> reaches the accessor of
  \<^verbatim>\<open>Object.prototype\<close> and creates no entry. For the frame with the children \<^verbatim>\<open>__proto__\<close>
  and \<^verbatim>\<open>icon\<close> the list holds \<^verbatim>\<open>icon\<close> alone, where the entries of the children give
  \<^verbatim>\<open>__proto__\<close> the identifier \<^verbatim>\<open>1:1\<close>.
\<close>

theorem makeAssetList_proto_child:
  "makeAssetList proto_frame = Inr [(''icon'', Val ''1:2'')]
   \<and> child_entries proto_frame = [(''__proto__'', Val ''1:1''), (''icon'', Val ''1:2'')]
   \<and> obj_get [(''icon'', Val ''1:2'')] ''__proto__'' = Undefined"
  by code_simp

text \<open>
  For every other name the code does what the claim says. For every ordered list of
  frames (nodes with a \<^verbatim>\<open>children\<close> array; absent results are filtered out) without a
  child named \<^verbatim>\<open>__proto__\<close>, \<^verbatim>\<open>makeAssetList\<close> returns the mapping built from the frames in
  order and each frame's immediate children in order, a later entry replacing an earlier
  one of the same name; only immediate children contribute. In particular, of two frames
  with children of the same name, the name is mapped to an identifier from the later
  frame.
\<close>

lemma makeAssetList_later_wins:
  assumes "\<forall>f. Val f \<in> set frames \<longrightarrow> children f \<noteq> None"
    and "''__proto__'' \<notin> fst ` set (child_entries frames)"
  shows "\<exists>assetList. makeAssetList frames = Inr assetList
           \<and> map_of assetList = map_of (rev (child_entries frames))
           \<and> (\<forall>f1 f2 cs2 c. frames = [Val f1, Val f2] \<and> children f2 = Some cs2 \<and> c \<in> set cs2 \<longrightarrow>
                 (\<exists>c' \<in> set cs2. node_name c' = node_name c
                     \<and> obj_get assetList (node_name c) = Val (node_id c')))"
proof -
  from add_frames_entries [OF assms, of "[]"]
  obtain a where a: "makeAssetList frames = Inr a" "map_of a = map_of (rev (child_entries frames))"
    by (auto simp: makeAssetList_def)
  have "\<exists>c' \<in> set cs2. node_name c' = node_name c \<and> obj_get a (node_name c) = Val (node_id c')"
    if fr: "frames = [Val f1, Val f2]" and cs2: "children f2 = Some cs2" and c: "c \<in> set cs2"
    for f1 f2 cs2 c
  proof -
    let ?e2 = "map (\<lambda>n. (node_name n, Val (node_id n))) cs2"
    from map_of_rev_entries_Some [OF c]
    obtain c' where c': "c' \<in> set cs2" "node_name c' = node_name c"
      "map_of (rev ?e2) (node_name c) = Some (Val (node_id c'))"
      by blast
    have "child_entries frames = child_entries [Val f1] @ ?e2"
      using fr cs2 by (simp add: child_entries_def)
    then have "map_of a = map_of (rev (child_entries [Val f1])) ++ map_of (rev ?e2)"
      using a(2) by simp
    then have "map_of a (node_name c) = Some (Val (node_id c'))"
      using c'(3) by (simp add: map_add_Some_iff)
    with c' show ?thesis by (auto simp: obj_get_def)
  qed
  with a show ?thesis by blast
qed

text \<open>
  Both frames have a child named \<^verbatim>\<open>icon\<close>; the later frame's identifier wins, and the
  grandchild \<^verbatim>\<open>stroke\<close> of the first frame is not in the list.
\<close>

lemma makeAssetList_later_wins_example:
  "makeAssetList two_frames = Inr [(''icon'', Val ''2:1''), (''logo'', Val ''1:3'')]"
  by code_simp

section \<open>Properties of the image resolver\<close>

lemma scale_key_not_index: "\<not> is_array_index (scale_key rt sc)"
  by (simp add: scale_key_def is_array_index_def is_digit_def)

lemma scale_key_not_proto: "scale_key rt sc \<noteq> ''__proto__''"
  by (simp add: scale_key_def)

lemma scale_key_not_id: "scale_key rt sc \<noteq> ''id''"
  by (simp add: scale_key_def)

lemma obj_set_scale_key:
  "map_of (obj_set (scale_key rt sc) v ps) = (map_of ps)(scale_key rt sc \<mapsto> v)"
  by (rule map_of_obj_set) (simp add: scale_key_not_proto)

lemma obj_set_scale_key_new:
  "scale_key rt sc \<notin> fst ` set ps \<Longrightarrow> obj_set (scale_key rt sc) v ps = ps @ [(scale_key rt sc, v)]"
  by (simp add: obj_set_def scale_key_not_index scale_key_not_proto)

text \<open>
  Claim C1. \<^verbatim>\<open>getAssetImages\<close> is to store under \<^verbatim>\<open>@<scale>x\<close> the URL found for the
  asset's identifier in that scale's response, and \<^verbatim>\<open>undefined\<close> when the identifier is
  missing from the response. The response's \<^verbatim>\<open>images\<close> object is read with
  \<^verbatim>\<open>images[nodeId]\<close>, which finds the members of \<^verbatim>\<open>Object.prototype\<close> too: for the asset
  list \<^verbatim>\<open>{a: "toString"}\<close>, any one scale and a response with the empty \<^verbatim>\<open>images\<close> object,
  the identifier is missing from the response, and what is stored under the scale's key is
  not \<^verbatim>\<open>undefined\<close> but the inherited function \<^verbatim>\<open>toString\<close>.
\<close>

theorem getAssetImages_inherited_url:
  "getAssetImages rt (images_always []) fileKey [(''a'', Val ''toString'')] (Some [sc]) format_arg
     = Inr [(''a'', Plain [(''id'', Prim (Val ''toString'')),
                            (scale_key rt sc, Member ''toString'')])]"
  by (simp add: getAssetImages_def getImageList_def images_always_def record_get_def
      images_get_def inherited_def object_prototype_members_def obj_get_def Let_def
      obj_set_def [of "''a''"] is_array_index_def is_digit_def obj_set_scale_key_new
      scale_key_not_id)

text \<open>
  Claim C9. The Image Record is to have an entry for every asset whose \<^verbatim>\<open>id\<close> field is the
  asset's identifier. The entry is made by \<^verbatim>\<open>assetsWithUrls[name] || {id: nodeId}\<close>, and the
  read finds the members of \<^verbatim>\<open>Object.prototype\<close>: for a layer named \<^verbatim>\<open>constructor\<close> the
  asset list is \<^verbatim>\<open>{constructor: "1:2"}\<close>, and for any one scale and any response with an
  \<^verbatim>\<open>images\<close> object the entry of the record is the inherited function with the URL stored
  on it. No object \<^verbatim>\<open>{id: "1:2"}\<close> is made, and the entry's \<^verbatim>\<open>id\<close> is \<^verbatim>\<open>undefined\<close>.
\<close>

theorem getAssetImages_inherited_entry:
  "makeAssetList constructor_frame = Inr [(''constructor'', Val ''1:2'')]
   \<and> getAssetImages rt (images_always imgs) fileKey [(''constructor'', Val ''1:2'')]
         (Some [sc]) format_arg
       = Inr [(''constructor'',
               Inherited ''constructor'' [(scale_key rt sc, images_get imgs ''1:2'')])]
   \<and> entry_field (Inherited ''constructor'' [(scale_key rt sc, images_get imgs ''1:2'')]) ''id''
       = Prim Undefined"
proof -
  have "makeAssetList constructor_frame = Inr [(''constructor'', Val ''1:2'')]"
    by code_simp
  moreover have "getAssetImages rt (images_always imgs) fileKey [(''constructor'', Val ''1:2'')]
         (Some [sc]) format_arg
       = Inr [(''constructor'',
               Inherited ''constructor'' [(scale_key rt sc, images_get imgs ''1:2'')])]"
    by (simp add: getAssetImages_def getImageList_def images_always_def record_get_def
        object_prototype_members_def obj_get_def Let_def obj_set_def [of "''constructor''"]
        is_array_index_def is_digit_def obj_set_scale_key_new)
  moreover have "entry_field (Inherited ''constructor''
        [(scale_key rt sc, images_get imgs ''1:2'')]) ''id'' = Prim Undefined"
    by (simp add: entry_field_def scale_key_def)
  ultimately show ?thesis by simp
qed

text \<open>
  Apart from the names that \<^verbatim>\<open>Object.prototype\<close> has, the resolver does what the
  specification says. The lemmas below describe the merge for every asset list without the
  name \<^verbatim>\<open>__proto__\<close> (\<^verbatim>\<open>makeAssetList\<close> yields no other), every runtime and every list of
  scales. A read of the \<^verbatim>\<open>images\<close> object gives the response's own entry, and \<^verbatim>\<open>undefined\<close>
  for an identifier that is missing and is not the name of an inherited member.
\<close>

lemma images_get_own: "map_of imgs k = Some v \<Longrightarrow> images_get imgs k = Prim v"
  by (simp add: images_get_def)

lemma images_get_missing:
  "map_of imgs k = None \<Longrightarrow> k \<notin> set object_prototype_members \<Longrightarrow> images_get imgs k = Prim Undefined"
  by (simp add: images_get_def inherited_def)

lemma entry_props_set_scale_key:
  "map_of (entry_props (entry_set (scale_key rt sc) v e))
     = (map_of (entry_props e))(scale_key rt sc \<mapsto> v)"
  by (cases e) (simp_all add: obj_set_scale_key)

lemma start_entry_eq:
  "map_of (entry_props (case record_get acc n of
                          Some e \<Rightarrow> e
                        | None \<Rightarrow> Plain [(''id'', Prim (obj_get assetList n))]))
     = start_entry acc assetList n"
  by (simp add: record_get_def start_entry_def entry_map_def split: option.splits)

lemma add_names_Inr:
  assumes "add_names rt names assetList sc b acc = Inr acc'"
    and "''__proto__'' \<notin> set names"
  shows "entry_map acc' name =
           (if name \<in> set names
            then Some ((start_entry acc assetList name)
                         (scale_key rt sc \<mapsto> image_url b (obj_get assetList name)))
            else entry_map acc name)"
  using assms
proof (induction names arbitrary: acc)
  case Nil
  then show ?case by simp
next
  case (Cons n names)
  from Cons.prems(1) obtain err doc imgs where b: "b = JValue err doc (Val imgs)"
    by (cases b; cases "case b of JValue e d i \<Rightarrow> i")
       (auto simp: Let_def split: body.splits js.splits)
  from Cons.prems(2) have n: "n \<noteq> ''__proto__''" and names: "''__proto__'' \<notin> set names"
    by auto
  let ?entry = "case record_get acc n of
                  Some e \<Rightarrow> e
                | None \<Rightarrow> Plain [(''id'', Prim (obj_get assetList n))]"
  let ?acc1 = "obj_set n (entry_set (scale_key rt sc)
                            (images_get imgs (to_string (obj_get assetList n))) ?entry) acc"
  from Cons.prems(1) b have rec: "add_names rt names assetList sc b ?acc1 = Inr acc'"
    by (simp add: Let_def)
  have url: "image_url b nodeId = images_get imgs (to_string nodeId)" for nodeId
    by (simp add: image_url_def images_of_def b)
  have m1: "map_of ?acc1 = (map_of acc)(n \<mapsto> entry_set (scale_key rt sc)
                            (images_get imgs (to_string (obj_get assetList n))) ?entry)"
    using n by (simp add: map_of_obj_set)
  have e1: "entry_map ?acc1 name =
      (if name = n
       then Some ((start_entry acc assetList n)
                    (scale_key rt sc \<mapsto> image_url b (obj_get assetList n)))
       else entry_map acc name)"
    unfolding entry_map_def m1
    by (simp add: entry_props_set_scale_key start_entry_eq url entry_map_def)
  have s1: "start_entry ?acc1 assetList name =
      (if name = n
       then (start_entry acc assetList n)
                    (scale_key rt sc \<mapsto> image_url b (obj_get assetList n))
       else start_entry acc assetList name)"
    using e1 by (simp add: start_entry_def)
  show ?case
    using Cons.IH [OF rec names] e1 s1
    by (cases "name = n"; cases "name \<in> set names"; simp)
qed

lemma add_names_ok:
  assumes "images_of b = Some imgs"
  shows "\<exists>acc'. add_names rt names assetList sc b acc = Inr acc'"
proof -
  from assms obtain err doc where b: "b = JValue err doc (Val imgs)"
    by (auto simp: images_of_def split: body.splits js.splits)
  show ?thesis
    by (induction names arbitrary: acc) (simp_all add: b Let_def)
qed

lemma add_scales_Inr:
  assumes "add_scales rt ps assetList acc = Inr r"
    and "''__proto__'' \<notin> fst ` set assetList"
  shows "entry_map r name =
           (if name \<in> fst ` set assetList \<and> ps \<noteq> []
            then Some (set_scales rt ps (obj_get assetList name) (start_entry acc assetList name))
            else entry_map acc name)"
  using assms(1)
proof (induction ps arbitrary: acc)
  case Nil
  then show ?case by simp
next
  case (Cons p ps)
  obtain sc b where p: "p = (sc, b)" by (cases p)
  from Cons.prems p obtain acc1 where
    acc1: "add_names rt (map fst assetList) assetList sc b acc = Inr acc1"
    and rest: "add_scales rt ps assetList acc1 = Inr r"
    by (auto split: sum.splits)
  from assms(2) have np: "''__proto__'' \<notin> set (map fst assetList)" by simp
  note n = add_names_Inr [OF acc1 np, of name]
  note ih = Cons.IH [OF rest]
  show ?case
  proof (cases "name \<in> fst ` set assetList")
    case True
    with n have "start_entry acc1 assetList name =
        (start_entry acc assetList name)(scale_key rt sc \<mapsto> image_url b (obj_get assetList name))"
      by (simp add: start_entry_def)
    with True n ih p show ?thesis
      by (cases "ps = []") (simp_all del: fun_upd_apply)
  next
    case False
    with n ih show ?thesis by simp
  qed
qed

lemma add_scales_ok:
  assumes "\<forall>p \<in> set ps. images_of (snd p) \<noteq> None"
  shows "\<exists>r. add_scales rt ps assetList acc = Inr r"
  using assms
proof (induction ps arbitrary: acc)
  case Nil
  then show ?case by simp
next
  case (Cons p ps)
  obtain sc b where p: "p = (sc, b)" by (cases p)
  with Cons.prems obtain imgs where "images_of b = Some imgs" by auto
  from add_names_ok [OF this]
  obtain acc1 where "add_names rt (map fst assetList) assetList sc b acc = Inr acc1" by blast
  moreover from Cons have "\<exists>r. add_scales rt ps assetList acc1 = Inr r" by simp
  ultimately show ?case using p by auto
qed

lemma set_scales_id: "set_scales rt ps nodeId m ''id'' = m ''id''"
proof (induction ps arbitrary: m)
  case Nil
  then show ?case by simp
next
  case (Cons p ps)
  obtain sc b where p: "p = (sc, b)" by (cases p)
  have ne: "''id'' \<noteq> scale_key rt sc" by (simp add: scale_key_def)
  have "set_scales rt (p # ps) nodeId m ''id''
      = set_scales rt ps nodeId (m(scale_key rt sc \<mapsto> image_url b nodeId)) ''id''"
    by (simp only: p set_scales.simps)
  also have "\<dots> = (m(scale_key rt sc \<mapsto> image_url b nodeId)) ''id''"
    by (rule Cons.IH)
  also have "\<dots> = m ''id''"
    using ne by (rule fun_upd_other)
  finally show ?case .
qed

lemma set_scales_other:
  "k \<notin> scale_key rt ` fst ` set ps \<Longrightarrow> set_scales rt ps nodeId m k = m k"
proof (induction ps arbitrary: m)
  case Nil
  then show ?case by simp
next
  case (Cons p ps)
  obtain sc' b where p: "p = (sc', b)" by (cases p)
  from Cons.prems p have ne: "k \<noteq> scale_key rt sc'" by auto
  from Cons.prems have notin: "k \<notin> scale_key rt ` fst ` set ps" by auto
  have "set_scales rt (p # ps) nodeId m k
      = set_scales rt ps nodeId (m(scale_key rt sc' \<mapsto> image_url b nodeId)) k"
    by (simp only: p set_scales.simps)
  also have "\<dots> = (m(scale_key rt sc' \<mapsto> image_url b nodeId)) k"
    using notin by (rule Cons.IH)
  also have "\<dots> = m k"
    using ne by (rule fun_upd_other)
  finally show ?case .
qed

lemma set_scales_key:
  assumes "k \<in> scale_key rt ` fst ` set ps"
    and "\<forall>sc' b'. (sc', b') \<in> set ps \<and> scale_key rt sc' = k \<longrightarrow> b' = b"
  shows "set_scales rt ps nodeId m k = Some (image_url b nodeId)"
  using assms
proof (induction ps arbitrary: m)
  case Nil
  then show ?case by simp
next
  case (Cons p ps)
  obtain sc' b' where p: "p = (sc', b')" by (cases p)
  have unfold: "set_scales rt (p # ps) nodeId m k
      = set_scales rt ps nodeId (m(scale_key rt sc' \<mapsto> image_url b' nodeId)) k"
    by (simp only: p set_scales.simps)
  from Cons.prems(2)
  have rest: "\<forall>sc' b'. (sc', b') \<in> set ps \<and> scale_key rt sc' = k \<longrightarrow> b' = b"
    by auto
  show ?case
  proof (cases "k \<in> scale_key rt ` fst ` set ps")
    case True
    then have "set_scales rt ps nodeId (m(scale_key rt sc' \<mapsto> image_url b' nodeId)) k
        = Some (image_url b nodeId)"
      using rest by (rule Cons.IH)
    with unfold show ?thesis by simp
  next
    case False
    with Cons.prems(1) p have k: "scale_key rt sc' = k" by auto
    with Cons.prems(2) p have eq: "b' = b" by auto
    from False
    have "set_scales rt ps nodeId (m(scale_key rt sc' \<mapsto> image_url b' nodeId)) k
        = (m(scale_key rt sc' \<mapsto> image_url b' nodeId)) k"
      by (rule set_scales_other)
    with unfold eq k show ?thesis by simp
  qed
qed

lemma promise_all_Inr: "promise_all rs = Inr ys \<Longrightarrow> rs = map Inr ys"
proof (induction rs arbitrary: ys)
  case Nil
  then show ?case by simp
next
  case (Cons r rs)
  from Cons.prems obtain v where v: "r = Inr v"
    by (cases r) simp_all
  from Cons.prems v obtain vs where vs: "promise_all rs = Inr vs"
    by (cases "promise_all rs") simp_all
  from Cons.prems v vs have "ys = v # vs" by simp
  with Cons.IH [OF vs] v show ?case by simp
qed

lemma promise_all_ok: "\<forall>r \<in> set rs. \<exists>y. r = Inr y \<Longrightarrow> \<exists>ys. promise_all rs = Inr ys"
proof (induction rs)
  case Nil
  then show ?case by simp
next
  case (Cons r rs)
  then obtain y ys where "r = Inr y" "promise_all rs = Inr ys" by auto
  then show ?case by simp
qed

lemma zip_responses:
  assumes "map f xs = map Inr ys" and "(x, y) \<in> set (zip xs ys)"
  shows "f x = Inr y"
proof -
  from assms(2) obtain i where i: "i < length xs" "i < length ys" "xs ! i = x" "ys ! i = y"
    by (auto simp: in_set_zip)
  from assms(1) have "map f xs ! i = map Inr ys ! i" by simp
  with i show ?thesis by simp
qed

lemma getAssetImages_Inr:
  assumes "getAssetImages rt api fileKey assetList (Some scales) format_arg = Inr r"
  shows "\<exists>bodies. length bodies = length scales
           \<and> (\<forall>p \<in> set (zip scales bodies).
                 getImageList api fileKey assetList
                   (case format_arg of Some f \<Rightarrow> f | None \<Rightarrow> ''png'') (fst p) = Inr (snd p))
           \<and> add_scales rt (zip scales bodies) assetList [] = Inr r"
proof -
  let ?f = "getImageList api fileKey assetList (case format_arg of Some f \<Rightarrow> f | None \<Rightarrow> ''png'')"
  have unfold: "getAssetImages rt api fileKey assetList (Some scales) format_arg =
      (case promise_all (map ?f scales) of
         Inl e \<Rightarrow> Inl e
       | Inr imageLists \<Rightarrow> add_scales rt (zip scales imageLists) assetList [])"
    by (simp add: getAssetImages_def)
  from assms unfold obtain bodies where b: "promise_all (map ?f scales) = Inr bodies"
    and r: "add_scales rt (zip scales bodies) assetList [] = Inr r"
    by (cases "promise_all (map ?f scales)") simp_all
  from promise_all_Inr [OF b] have m: "map ?f scales = map Inr bodies" .
  have "length (map ?f scales) = length (map (Inr :: body \<Rightarrow> exn + body) bodies)"
    by (simp only: m)
  then have len: "length bodies = length scales" by simp
  have "\<forall>p \<in> set (zip scales bodies). ?f (fst p) = Inr (snd p)"
  proof
    fix p assume "p \<in> set (zip scales bodies)"
    then have "(fst p, snd p) \<in> set (zip scales bodies)" by simp
    with m show "?f (fst p) = Inr (snd p)" by (rule zip_responses)
  qed
  with len r show ?thesis by blast
qed

lemma entry_map_keys: "name \<in> fst ` set r \<longleftrightarrow> entry_map r name \<noteq> None"
  by (simp add: entry_map_def map_of_eq_None_iff)

text \<open>
  Whenever the call returns a record for a non-empty list of scales, the record has exactly
  the names of the asset list. The \<^verbatim>\<open>id\<close> of an entry is the asset's identifier, except for a
  name that \<^verbatim>\<open>Object.prototype\<close> has: there the entry is the inherited member and has no
  \<^verbatim>\<open>id\<close>.
\<close>

lemma getAssetImages_keys_and_ids:
  assumes "getAssetImages rt api fileKey assetList (Some scales) format_arg = Inr r"
    and "scales \<noteq> []"
    and "''__proto__'' \<notin> fst ` set assetList"
  shows "fst ` set r = fst ` set assetList
       \<and> (\<forall>name \<in> fst ` set assetList.
             \<exists>entry. map_of r name = Some entry
                \<and> entry_field entry ''id''
                    = (if name \<in> set object_prototype_members then Prim Undefined
                       else Prim (obj_get assetList name)))"
proof -
  from getAssetImages_Inr [OF assms(1)] obtain bodies where
    len: "length bodies = length scales"
    and r: "add_scales rt (zip scales bodies) assetList [] = Inr r"
    by blast
  from len assms(2) have ne: "zip scales bodies \<noteq> []" by (cases scales; cases bodies) simp_all
  have start: "start_entry [] assetList name ''id'' =
      (if name \<in> set object_prototype_members then None
       else Some (Prim (obj_get assetList name)))" for name
    by (simp add: start_entry_def entry_map_def)
  have em: "entry_map r name =
      (if name \<in> fst ` set assetList
       then Some (set_scales rt (zip scales bodies) (obj_get assetList name)
                    (start_entry [] assetList name))
       else None)" for name
    unfolding add_scales_Inr [OF r assms(3), of name] using ne by (simp add: entry_map_def)
  have keys: "fst ` set r = fst ` set assetList"
  proof (rule set_eqI)
    fix name
    show "name \<in> fst ` set r \<longleftrightarrow> name \<in> fst ` set assetList"
      unfolding entry_map_keys em [of name] by simp
  qed
  have ids: "\<exists>entry. map_of r name = Some entry
                \<and> entry_field entry ''id''
                    = (if name \<in> set object_prototype_members then Prim Undefined
                       else Prim (obj_get assetList name))"
    if "name \<in> fst ` set assetList" for name
  proof -
    from em [of name] that
    have "map_option (\<lambda>e. map_of (entry_props e)) (map_of r name) =
        Some (set_scales rt (zip scales bodies) (obj_get assetList name)
                (start_entry [] assetList name))"
      by (simp add: entry_map_def)
    then obtain entry where e: "map_of r name = Some entry"
      and m: "map_of (entry_props entry)
                = set_scales rt (zip scales bodies) (obj_get assetList name)
                    (start_entry [] assetList name)"
      by (cases "map_of r name") simp_all
    have "map_of (entry_props entry) ''id'' = start_entry [] assetList name ''id''"
      unfolding m by (rule set_scales_id)
    then have "entry_field entry ''id''
        = (if name \<in> set object_prototype_members then Prim Undefined
           else Prim (obj_get assetList name))"
      by (simp add: entry_field_def start)
    with e show ?thesis by blast
  qed
  from keys ids show ?thesis by blast
qed

text \<open>
  If every requested scale's response carries an \<^verbatim>\<open>images\<close> object, the call returns a
  record; and for each asset name and each requested scale whose key \<^verbatim>\<open>@<scale>x\<close> no other
  requested scale shares, the entry holds under that key what the read of the asset's
  identifier in that scale's \<^verbatim>\<open>images\<close> object gives. The scales are any numbers, and the key
  has the text the runtime prints for the scale.
\<close>

lemma getAssetImages_ok:
  assumes "\<forall>sc \<in> set scales. \<exists>b imgs.
             getImageList api fileKey assetList fmt sc = Inr b \<and> images_of b = Some imgs"
    and fmt: "fmt = (case format_arg of Some f \<Rightarrow> f | None \<Rightarrow> ''png'')"
  shows "\<exists>r. getAssetImages rt api fileKey assetList (Some scales) format_arg = Inr r"
proof -
  let ?f = "getImageList api fileKey assetList fmt"
  have "\<forall>r \<in> set (map ?f scales). \<exists>y. r = Inr y"
    using assms(1) by auto
  from promise_all_ok [OF this] obtain bodies where b: "promise_all (map ?f scales) = Inr bodies"
    by blast
  from promise_all_Inr [OF b] have m: "map ?f scales = map Inr bodies" .
  have "\<forall>p \<in> set (zip scales bodies). images_of (snd p) \<noteq> None"
  proof
    fix p assume p: "p \<in> set (zip scales bodies)"
    then have "(fst p, snd p) \<in> set (zip scales bodies)" by simp
    with m have r: "?f (fst p) = Inr (snd p)" by (rule zip_responses)
    from p have "fst p \<in> set scales" by (metis prod.collapse set_zip_leftD)
    with assms(1) obtain b' imgs where "?f (fst p) = Inr b'" "images_of b' = Some imgs" by blast
    with r show "images_of (snd p) \<noteq> None" by simp
  qed
  from add_scales_ok [OF this]
  obtain r where "add_scales rt (zip scales bodies) assetList [] = Inr r"
    by blast
  with b have "getAssetImages rt api fileKey assetList (Some scales) format_arg = Inr r"
    by (simp add: getAssetImages_def fmt)
  then show ?thesis by blast
qed

lemma getAssetImages_entry:
  assumes r: "getAssetImages rt api fileKey assetList (Some scales) format_arg = Inr r"
    and fmt: "fmt = (case format_arg of Some f \<Rightarrow> f | None \<Rightarrow> ''png'')"
    and np: "''__proto__'' \<notin> fst ` set assetList"
    and name: "name \<in> fst ` set assetList"
    and sc: "sc \<in> set scales"
    and other: "\<forall>sc' \<in> set scales. scale_key rt sc' = scale_key rt sc \<longrightarrow> sc' = sc"
    and b: "getImageList api fileKey assetList fmt sc = Inr b"
  shows "\<exists>entry. map_of r name = Some entry
           \<and> entry_field entry (scale_key rt sc) = image_url b (obj_get assetList name)"
proof -
  let ?f = "getImageList api fileKey assetList fmt"
  from getAssetImages_Inr [OF r] fmt obtain bodies where
    len: "length bodies = length scales"
    and resp: "\<forall>p \<in> set (zip scales bodies). ?f (fst p) = Inr (snd p)"
    and rr: "add_scales rt (zip scales bodies) assetList [] = Inr r"
    by blast
  from sc obtain i where i: "i < length scales" "scales ! i = sc"
    by (auto simp: in_set_conv_nth)
  with len have mem: "(sc, bodies ! i) \<in> set (zip scales bodies)"
    by (auto simp: in_set_zip)
  then have key: "scale_key rt sc \<in> scale_key rt ` fst ` set (zip scales bodies)"
    by force
  have func: "\<forall>sc' b'. (sc', b') \<in> set (zip scales bodies)
                \<and> scale_key rt sc' = scale_key rt sc \<longrightarrow> b' = b"
  proof (intro allI impI)
    fix sc' b'
    assume h: "(sc', b') \<in> set (zip scales bodies) \<and> scale_key rt sc' = scale_key rt sc"
    then have "sc' \<in> set scales" by (meson set_zip_leftD)
    with other h have "sc' = sc" by blast
    with h resp have "?f sc = Inr b'" by force
    with b show "b' = b" by simp
  qed
  from mem have ne: "zip scales bodies \<noteq> []" by auto
  have "entry_map r name =
      Some (set_scales rt (zip scales bodies) (obj_get assetList name)
              (start_entry [] assetList name))"
    unfolding add_scales_Inr [OF rr np, of name] using ne name by simp
  then obtain entry where e: "map_of r name = Some entry"
    and m: "map_of (entry_props entry)
              = set_scales rt (zip scales bodies) (obj_get assetList name)
                  (start_entry [] assetList name)"
    by (cases "map_of r name") (simp_all add: entry_map_def)
  have "map_of (entry_props entry) (scale_key rt sc)
      = Some (image_url b (obj_get assetList name))"
    unfolding m using key func by (rule set_scales_key)
  then have "entry_field entry (scale_key rt sc) = image_url b (obj_get assetList name)"
    by (simp add: entry_field_def)
  with e show ?thesis by blast
qed

lemma getAssetImages_merges_scales:
  assumes ok: "\<forall>sc \<in> set scales. \<exists>b imgs.
        getImageList api fileKey assetList fmt sc = Inr b \<and> images_of b = Some imgs"
    and np: "''__proto__'' \<notin> fst ` set assetList"
    and inj: "inj_on (scale_key rt) (set scales)"
  shows "\<exists>r. getAssetImages rt api fileKey assetList (Some scales) (Some fmt) = Inr r
       \<and> (\<forall>name \<in> fst ` set assetList. \<forall>sc \<in> set scales. \<exists>entry b imgs.
             map_of r name = Some entry
             \<and> getImageList api fileKey assetList fmt sc = Inr b \<and> images_of b = Some imgs
             \<and> entry_field entry (scale_key rt sc)
                 = images_get imgs (to_string (obj_get assetList name)))"
proof -
  have fmt: "fmt = (case Some fmt of Some f \<Rightarrow> f | None \<Rightarrow> ''png'')" by simp
  from getAssetImages_ok [OF ok fmt]
  obtain r where r: "getAssetImages rt api fileKey assetList (Some scales) (Some fmt) = Inr r"
    by blast
  have "\<exists>entry b imgs. map_of r name = Some entry
          \<and> getImageList api fileKey assetList fmt sc = Inr b \<and> images_of b = Some imgs
          \<and> entry_field entry (scale_key rt sc)
              = images_get imgs (to_string (obj_get assetList name))"
    if name: "name \<in> fst ` set assetList" and sc: "sc \<in> set scales" for name sc
  proof -
    from ok sc obtain b imgs where b: "getImageList api fileKey assetList fmt sc = Inr b"
      and imgs: "images_of b = Some imgs"
      by blast
    from inj sc
    have other: "\<forall>sc' \<in> set scales. scale_key rt sc' = scale_key rt sc \<longrightarrow> sc' = sc"
      by (auto dest: inj_onD)
    from getAssetImages_entry [OF r fmt np name sc other b]
    obtain entry where e: "map_of r name = Some entry"
      "entry_field entry (scale_key rt sc) = image_url b (obj_get assetList name)"
      by blast
    from imgs have "image_url b (obj_get assetList name)
        = images_get imgs (to_string (obj_get assetList name))"
      by (simp add: image_url_def)
    with e b imgs show ?thesis by simp
  qed
  with r show ?thesis by blast
qed

text \<open>
  The example of the specification: assets \<^verbatim>\<open>{a: "1", b: "2"}\<close>, scales \<^verbatim>\<open>[1, 2]\<close>, node 2
  missing from the response for scale 2.
\<close>

lemma getAssetImages_example:
  "getAssetImages nat_runtime example_images ''key'' [(''a'', Val ''1''), (''b'', Val ''2'')]
      (Some [Num 1, Num 2]) None
     = Inr [(''a'', Plain [(''id'', Prim (Val ''1'')), (''@1x'', Prim (Val ''urlA1'')),
                           (''@2x'', Prim (Val ''urlA2''))]),
            (''b'', Plain [(''id'', Prim (Val ''2'')), (''@1x'', Prim (Val ''urlB1'')),
                           (''@2x'', Prim Undefined)])]"
  by code_simp

section \<open>Properties of the orchestrator\<close>

lemma sublist_array_join: "Val x \<in> set xs \<Longrightarrow> sublist x (array_join xs)"
proof (induction xs rule: array_join.induct)
  case 1
  then show ?case by simp
next
  case (2 y)
  then show ?case by auto
next
  case (3 y z zs)
  show ?case
  proof (cases "y = Val x")
    case True
    then show ?thesis by simp
  next
    case False
    with 3 have "sublist x (array_join (z # zs))" by simp
    then have "sublist x ((join_elem y @ '','') @ array_join (z # zs))"
      by (rule sublist_order.order_trans [OF _ sublist_append_leftI])
    then show ?thesis by simp
  qed
qed

lemma first_with_id_absent: "absent nodeId \<Longrightarrow> first_with_id nodeId tree = None"
  by (cases nodeId) (simp_all add: first_with_id_def has_id_def find_None_iff)

lemma findNode_absent: "first_with_id nodeId tree = None \<Longrightarrow> absent (findNode nodeId tree)"
  using findNode_preorder [of nodeId tree] by simp

lemma findNameInNode_absent:
  "first_frame_named name tree = None \<Longrightarrow> absent (findNameInNode name tree)"
  using findNameInNode_preorder [of name tree] by simp

lemma filter_truthy_absent: "\<forall>x \<in> set xs. absent x \<Longrightarrow> filter truthy_obj xs = []"
proof (induction xs)
  case Nil
  then show ?case by simp
next
  case (Cons x xs)
  then show ?case by (cases x) simp_all
qed

lemma get_success:
  assumes "fetchFunc this (request_url rt api params)
             [(''X-Figma-Token'', personalAccessToken this)] = Inr r"
    and "status r < 400"
  shows "get rt this api params = json r"
  using assms by (simp add: get_def)

text \<open>
  Claim C6. When the file is fetched and none of the supplied frame identifiers and none
  of the supplied frame names resolves to a node of its document, \<^verbatim>\<open>getFigmassets\<close> fails
  with an error whose message starts with \<^verbatim>\<open>No matching frames for\<close> and contains every
  requested identifier and every requested name; no Image Record is returned.
\<close>

theorem getFigmassets_no_matching_frames:
  assumes fetched: "fetch (request_url rt (''files/'' @ fileKey) None) [(''X-Figma-Token'', token)] = Inr r"
    and ok: "status r < 400"
    and body: "json r = Inr (JValue err (Val tree) imgs)"
    and ids: "\<forall>i \<in> set frameIds. first_with_id i tree = None"
    and names: "\<forall>nm \<in> set frameNames. first_frame_named nm tree = None"
  shows "\<exists>msg. getFigmassets rt (Some frameIds) (Some frameNames) fileKey token scales_arg format_arg fetch
             = Inl (Error msg)
           \<and> prefix ''No matching frames for '' msg
           \<and> (\<forall>i. Val i \<in> set frameIds \<longrightarrow> sublist i msg)
           \<and> (\<forall>nm \<in> set frameNames. sublist nm msg)"
proof -
  let ?api = "\<lparr>personalAccessToken = token, fetchFunc = fetch\<rparr>"
  let ?file = "JValue err (Val tree) imgs"
  let ?resolved = "map (\<lambda>name. findNameInNode name tree) frameNames"
  let ?ids = "frameIds @ ?resolved"
  let ?msg = "''No matching frames for '' @ array_join ?ids @ '', ''
                @ array_join (map Val frameNames)"
  have g: "get rt ?api (''files/'' @ fileKey) None = Inr ?file"
    using get_success [of ?api rt "''files/'' @ fileKey" None r] fetched ok body by simp
  have resolved: "(if frameNames \<noteq> []
                   then (case findNodeIdsForNames ?file frameNames of
                           Inl e \<Rightarrow> Inl e
                         | Inr ids \<Rightarrow> Inr (frameIds @ ids))
                   else Inr frameIds) = Inr ?ids"
    by (simp add: findNodeIdsForNames_def file_document_def)
  have "\<forall>i \<in> set ?ids. first_with_id i tree = None"
    using ids names by (auto simp: first_with_id_absent findNameInNode_absent)
  then have abs: "\<forall>x \<in> set (map (\<lambda>nodeId. findNode nodeId tree) ?ids). absent x"
    by (auto simp: findNode_absent)
  have found: "\<exists>found. findNodesById ?file ?ids = Inr found \<and> filter truthy_obj found = []"
  proof (cases "?ids = []")
    case True
    then show ?thesis by (simp add: findNodesById_def)
  next
    case False
    then have "findNodesById ?file ?ids = Inr (map (\<lambda>nodeId. findNode nodeId tree) ?ids)"
      by (simp only: findNodesById_def file_document_def) simp
    with filter_truthy_absent [OF abs] show ?thesis by blast
  qed
  then obtain found where f: "findNodesById ?file ?ids = Inr found" "filter truthy_obj found = []"
    by blast
  have res: "getFigmassets rt (Some frameIds) (Some frameNames) fileKey token scales_arg format_arg fetch
      = Inl (Error ?msg)"
    unfolding getFigmassets_def Let_def option.case g sum.case resolved f by simp
  have p: "prefix ''No matching frames for '' ?msg" by simp
  have s1: "sublist i ?msg" if "Val i \<in> set frameIds" for i
  proof -
    from that have "sublist i (array_join ?ids)" by (simp add: sublist_array_join)
    then show ?thesis
      by (rule sublist_order.order_trans [OF _ sublist_appendI])
  qed
  have s2: "sublist nm ?msg" if "nm \<in> set frameNames" for nm
  proof -
    from that have "sublist nm (array_join (map Val frameNames))" by (simp add: sublist_array_join)
    then have "sublist nm ((''No matching frames for '' @ array_join ?ids @ '', '')
                 @ array_join (map Val frameNames))"
      by (rule sublist_order.order_trans [OF _ sublist_append_leftI])
    then show ?thesis by simp
  qed
  from res p s1 s2 show ?thesis by blast
qed

text \<open>
  The identifier \<^verbatim>\<open>X\<close> is not in the example document, nor is a frame named \<^verbatim>\<open>Nope\<close>.
\<close>

theorem getFigmassets_no_matching_frames_witness:
  "getFigmassets nat_runtime (Some [Val ''X'']) (Some []) ''key'' ''secret'' None None (fetch_always file_ok)
     = Inl (Error ''No matching frames for X, '')
   \<and> getFigmassets nat_runtime (Some [Val ''X'']) (Some [''Nope'']) ''key'' ''secret'' None None
       (fetch_always file_ok)
     = Inl (Error ''No matching frames for X,, Nope'')"
proof -
  have fetched: "fetch_always file_ok (request_url nat_runtime (''files/'' @ ''key'') None)
      [(''X-Figma-Token'', ''secret'')] = Inr file_ok"
    by (simp add: fetch_always_def)
  have ok: "status file_ok < 400" by (simp add: file_ok_def)
  have body: "json file_ok = Inr (JValue Undefined (Val example_tree) Undefined)"
    by (simp add: file_ok_def)
  have ids: "\<forall>i \<in> set [Val ''X'']. first_with_id i example_tree = None"
    by (simp add: first_with_id_def has_id_def example_tree_def)
  have n0: "\<forall>nm \<in> set []. first_frame_named nm example_tree = None" by simp
  have n1: "\<forall>nm \<in> set [''Nope'']. first_frame_named nm example_tree = None"
    by (simp add: first_frame_named_def is_frame_named_def example_tree_def)
  have e0: "getFigmassets nat_runtime (Some [Val ''X'']) (Some []) ''key'' ''secret'' None None
      (fetch_always file_ok) = Inl (Error ''No matching frames for X, '')"
    by code_simp
  have e1: "getFigmassets nat_runtime (Some [Val ''X'']) (Some [''Nope'']) ''key'' ''secret'' None None
      (fetch_always file_ok) = Inl (Error ''No matching frames for X,, Nope'')"
    by code_simp
  note t0 = getFigmassets_no_matching_frames
    [where rt = nat_runtime and fetch = "fetch_always file_ok" and fileKey = "''key''" and token = "''secret''"
       and frameNames = "[]" and scales_arg = None and format_arg = None,
     OF fetched ok body ids n0]
  note t1 = getFigmassets_no_matching_frames
    [where rt = nat_runtime and fetch = "fetch_always file_ok" and fileKey = "''key''" and token = "''secret''"
       and frameNames = "[''Nope'']" and scales_arg = None and format_arg = None,
     OF fetched ok body ids n1]
  from t0 t1 e0 e1 show ?thesis by simp
qed

section \<open>Properties of the map integration\<close>

text \<open>
  Claim C4. \<^verbatim>\<open>addAssetsToMap\<close> is to select the greatest scale among the entries an asset
  has, and to load the image from that scale's URL. The code takes the greatest scale among
  the keys of the entry, whatever is stored under them. For the entry
  \<^verbatim>\<open>{id: "1:5", "@1x": "v1", "@2x": undefined}\<close>, which the resolver makes when the response
  for scale 2 lacks the asset, the only URL is the one at scale 1; in every runtime that
  reads \<^verbatim>\<open>1\<close> and \<^verbatim>\<open>2\<close> as numbers of which the second is the greater and prints it as
  \<^verbatim>\<open>2\<close>, the code selects scale 2, calls \<^verbatim>\<open>loadImage\<close> with \<^verbatim>\<open>undefined\<close> and registers at
  the pixel ratio 2.
\<close>

theorem addAssetsToMap_undefined_entry:
  assumes "Number_of rt ''1'' = Num a" and "Number_of rt ''2'' = Num b" and "a < b"
    and "String_of rt b = ''2''"
  shows "map (\<lambda>c. (url c, callback c error img))
           (addAssetsToMap rt
              [(''dot'', Plain [(''id'', Prim (Val ''1:5'')), (''@1x'', Prim (Val ''v1'')),
                                (''@2x'', Prim Undefined)])])
         = [(Prim Undefined, AddImage ''dot'' img (Num b))]"
proof -
  have "selected_scale rt (Plain [(''id'', Prim (Val ''1:5'')), (''@1x'', Prim (Val ''v1'')),
                                  (''@2x'', Prim Undefined)]) = Num b"
    using assms(1,2,3) by (simp add: selected_scale_def Math_max_def max_absorb2 less_imp_le)
  then show ?thesis
    using assms(4) by (simp add: addAssetsToMap_def entry_field_def)
qed

theorem addAssetsToMap_undefined_entry_witness:
  "map (\<lambda>c. (url c, callback c () ''image''))
     (addAssetsToMap nat_runtime
        [(''dot'', Plain [(''id'', Prim (Val ''1:5'')), (''@1x'', Prim (Val ''v1'')),
                          (''@2x'', Prim Undefined)])])
   = [(Prim Undefined, AddImage ''dot'' ''image'' (Num (2::nat)))]"
proof -
  have n1: "Number_of nat_runtime ''1'' = Num (1::nat)"
    by (simp add: nat_runtime_def is_digit_def digits_value_def)
  have n2: "Number_of nat_runtime ''2'' = Num (2::nat)"
    by (simp add: nat_runtime_def is_digit_def digits_value_def)
  have lt: "(1::nat) < 2" by simp
  have s2: "String_of nat_runtime (2::nat) = ''2''"
    by (simp add: nat_runtime_def show_nat.simps digit_char_def)
  show ?thesis
    by (rule addAssetsToMap_undefined_entry [OF n1 n2 lt s2])
qed

text \<open>
  In general the code selects the greatest scale among the keys of an entry. For an entry
  whose keys starting with \<^verbatim>\<open>@\<close> are the keys \<^verbatim>\<open>@<n>x\<close> of a non-empty list of finite scales,
  each of which the runtime reads back from the digits and dots of its text, \<^verbatim>\<open>loadImage\<close> is
  called with what is stored under the key of the greatest of them, and the callback
  registers the image under the asset's name with that scale as the pixel ratio. When every
  key holds a URL, that is the greatest scale among the present entries.
\<close>

lemma strip_scale_key:
  "filter (\<lambda>c. c \<in> set ''0123456789.'') (scale_key rt (Num n))
     = filter (\<lambda>c. c \<in> set ''0123456789.'') (String_of rt n)"
  by (simp add: scale_key_def)

lemma max2_Num: "max2 (Num a) (Num n) = Num (max a n)"
  by simp

lemma foldl_max2_Num:
  "foldl max2 (Num a) (map Num ns) = Num (Max (set (a # ns)))"
proof (induction ns arbitrary: a)
  case Nil
  then show ?case by simp
next
  case (Cons n ns)
  have "foldl max2 (Num a) (map Num (n # ns)) = foldl max2 (Num (max a n)) (map Num ns)"
    by (simp only: list.map foldl_Cons max2_Num)
  also have "\<dots> = Num (Max (set (max a n # ns)))" by (rule Cons.IH)
  also have "Max (set (max a n # ns)) = Max (set (a # n # ns))"
    by (cases "ns = []") (simp_all add: max.assoc)
  finally show ?case .
qed

lemma Math_max_Num:
  "ns \<noteq> [] \<Longrightarrow> Math_max (map Num ns) = Num (Max (set ns))"
proof -
  assume "ns \<noteq> []"
  then obtain n ns' where ns: "ns = n # ns'" by (cases ns) auto
  have "Math_max (map Num (n # ns')) = foldl max2 (Num n) (map Num ns')"
    by (simp add: Math_max_def)
  with ns show ?thesis by (simp only: foldl_max2_Num)
qed

lemma selected_scale_max:
  assumes "filter (\<lambda>k. case k of [] \<Rightarrow> False | c # _ \<Rightarrow> c = CHR ''@'')
             (map fst (entry_props entry))
             = map (\<lambda>n. scale_key rt (Num n)) ns"
    and "ns \<noteq> []"
    and "\<forall>n \<in> set ns.
           Number_of rt (filter (\<lambda>c. c \<in> set ''0123456789.'') (String_of rt n)) = Num n"
  shows "selected_scale rt entry = Num (Max (set ns))"
proof -
  have each: "Number_of rt (filter (\<lambda>c. c \<in> set ''0123456789.'') (scale_key rt (Num n))) = Num n"
    if "n \<in> set ns" for n
    using assms(3) that by (simp only: strip_scale_key)
  have "map (\<lambda>k. Number_of rt (filter (\<lambda>c. c \<in> set ''0123456789.'') k))
          (map (\<lambda>n. scale_key rt (Num n)) ns)
      = map (\<lambda>n. Number_of rt (filter (\<lambda>c. c \<in> set ''0123456789.'') (scale_key rt (Num n)))) ns"
    by (simp only: map_map o_def)
  also have "\<dots> = map Num ns"
    by (rule map_cong [OF refl]) (rule each)
  finally have "map (\<lambda>k. Number_of rt (filter (\<lambda>c. c \<in> set ''0123456789.'') k))
          (map (\<lambda>n. scale_key rt (Num n)) ns)
      = map Num ns" .
  then have "selected_scale rt entry = Math_max (map Num ns)"
    using assms(1) by (simp only: selected_scale_def)
  also have "\<dots> = Num (Max (set ns))"
    using assms(2) by (rule Math_max_Num)
  finally show ?thesis .
qed

lemma addAssetsToMap_highest_key:
  assumes "distinct (map fst assets)"
    and "i < length assets"
    and "assets ! i = (name, entry)"
    and "filter (\<lambda>k. case k of [] \<Rightarrow> False | c # _ \<Rightarrow> c = CHR ''@'')
           (map fst (entry_props entry))
           = map (\<lambda>n. scale_key rt (Num n)) ns"
    and "ns \<noteq> []"
    and "\<forall>n \<in> set ns.
           Number_of rt (filter (\<lambda>c. c \<in> set ''0123456789.'') (String_of rt n)) = Num n"
  shows "length (addAssetsToMap rt assets) = length assets
       \<and> url (addAssetsToMap rt assets ! i) = entry_field entry (scale_key rt (Num (Max (set ns))))
       \<and> (\<forall>err img. callback (addAssetsToMap rt assets ! i) err img
             = AddImage name img (Num (Max (set ns))))"
proof -
  from assms(2,3) have mem: "(name, entry) \<in> set assets"
    by (metis nth_mem)
  with assms(1) have look: "map_of assets name = Some entry"
    by (rule map_of_is_SomeI)
  have sel: "selected_scale rt entry = Num (Max (set ns))"
    using assms(4,5,6) by (rule selected_scale_max)
  have key: "''@'' @ number_string rt (Num (Max (set ns))) @ ''x'' = scale_key rt (Num (Max (set ns)))"
    by (simp add: scale_key_def)
  have nth: "addAssetsToMap rt assets ! i =
      \<lparr>url = entry_field entry (scale_key rt (Num (Max (set ns)))),
       callback = (\<lambda>error image. AddImage name image (Num (Max (set ns))))\<rparr>"
    using assms(2,3) look sel key by (simp add: addAssetsToMap_def Let_def)
  show ?thesis
    by (simp add: nth) (simp add: addAssetsToMap_def)
qed

text \<open>
  For the asset with entries at \<^verbatim>\<open>@1x\<close> and \<^verbatim>\<open>@3x\<close> the scale 3 is selected; for the asset
  whose entry at \<^verbatim>\<open>@2x\<close> holds \<^verbatim>\<open>undefined\<close> the scale 2 is.
\<close>

lemma addAssetsToMap_example:
  "map (\<lambda>c. (url c, callback c () ''image'')) (addAssetsToMap nat_runtime example_assets)
     = [(Prim (Val ''u3''), AddImage ''pin'' ''image'' (Num 3)),
        (Prim Undefined, AddImage ''dot'' ''image'' (Num 2))]"
  by code_simp

section \<open>Properties of the static snapshot loader\<close>

text \<open>
  Claim C5, as stated, fails for a path that already ends with more than one separator:
  the replacement only adds a separator after a last character that is not one, so
  \<^verbatim>\<open>assets//\<close> is used as it is.
\<close>

theorem normalize_path_counterexample:
  "normalize_path (Some ''assets//'') = ''assets//''
   \<and> \<not> ends_with_single_slash (normalize_path (Some ''assets//''))"
  by (simp add: normalize_path_def replace_last_def ends_with_single_slash_def)

lemma normalize_path_eq:
  "normalize_path (Some path) =
     (if path = [] \<or> last path = CHR ''/'' then path else path @ ''/'')"
  by (simp add: normalize_path_def replace_last_def)

text \<open>
  Claim C5, amended. For every non-empty base path the prefix used by
  \<^verbatim>\<open>loadStoredFigmassets\<close> ends with a separator: it is the path itself when the path
  already ends with one, and the path followed by one separator otherwise (separators
  already at the end are kept, not collapsed). Each descriptor of the manifest is loaded
  from the prefix followed by its file name and registered under its identifier with its
  scale; with the path \<^verbatim>\<open>assets\<close> and the manifest entry of the example, the load targets
  \<^verbatim>\<open>assets/a.png\<close> and registers \<^verbatim>\<open>a\<close> with the entry's scale.
\<close>

theorem loadStoredFigmassets_path:
  "(path \<noteq> [] \<longrightarrow>
      normalize_path (Some path) = (if last path = CHR ''/'' then path else path @ ''/'')
      \<and> last (normalize_path (Some path)) = CHR ''/'')
   \<and> (fetch (normalize_path (Some path) @ ''assets.json'') = Inr r \<and> json r = Inr assets \<longrightarrow>
        (\<exists>calls. loadStoredFigmassets fetch (Some path) = Inr calls
           \<and> map url calls = map (\<lambda>a. Val (normalize_path (Some path) @ fileName a)) assets
           \<and> (\<forall>i < length assets. \<forall>err img.
                 callback (calls ! i) err img
                   = AddImage (asset_id (assets ! i)) img (scale (assets ! i)))))
   \<and> (fetch ''assets/assets.json'' = Inr r
        \<and> json r = Inr [\<lparr>asset_id = ''a'', fileName = ''a.png'', scale = sc\<rparr>] \<longrightarrow>
        (\<exists>call. loadStoredFigmassets fetch (Some ''assets'') = Inr [call]
           \<and> url call = Val ''assets/a.png''
           \<and> (\<forall>err img. callback call err img = AddImage ''a'' img sc)))"
proof (intro conjI impI)
  assume "path \<noteq> []"
  then show "normalize_path (Some path) = (if last path = CHR ''/'' then path else path @ ''/'')"
    by (simp add: normalize_path_eq)
  from \<open>path \<noteq> []\<close> show "last (normalize_path (Some path)) = CHR ''/''"
    by (simp add: normalize_path_eq)
next
  assume "fetch (normalize_path (Some path) @ ''assets.json'') = Inr r \<and> json r = Inr assets"
  then show "\<exists>calls. loadStoredFigmassets fetch (Some path) = Inr calls
           \<and> map url calls = map (\<lambda>a. Val (normalize_path (Some path) @ fileName a)) assets
           \<and> (\<forall>i < length assets. \<forall>err img.
                 callback (calls ! i) err img
                   = AddImage (asset_id (assets ! i)) img (scale (assets ! i)))"
    by (simp add: loadStoredFigmassets_def Let_def o_def)
next
  assume "fetch ''assets/assets.json'' = Inr r
        \<and> json r = Inr [\<lparr>asset_id = ''a'', fileName = ''a.png'', scale = sc\<rparr>]"
  then show "\<exists>call. loadStoredFigmassets fetch (Some ''assets'') = Inr [call]
           \<and> url call = Val ''assets/a.png''
           \<and> (\<forall>err img. callback call err img = AddImage ''a'' img sc)"
    by (simp add: loadStoredFigmassets_def Let_def normalize_path_eq)
qed

theorem loadStoredFigmassets_path_witness:
  "normalize_path (Some ''assets'') = ''assets/''
   \<and> normalize_path (Some ''assets/'') = ''assets/''
   \<and> map url (projr (loadStoredFigmassets fetch_manifest (Some ''assets'')
         :: exn + (string js, unit, string, nat) load_image list)) = [Val ''assets/a.png'']
   \<and> callback (hd (projr (loadStoredFigmassets fetch_manifest (Some ''assets'')
         :: exn + (string js, unit, string, nat) load_image list))) () ''image'' = AddImage ''a'' ''image'' 1"
proof -
  have f: "fetch_manifest ''assets/assets.json'' = Inr manifest_a
      \<and> json manifest_a = Inr [\<lparr>asset_id = ''a'', fileName = ''a.png'', scale = 1\<rparr>]"
    by (simp add: fetch_manifest_def manifest_a_def)
  have t: "\<exists>call. (loadStoredFigmassets fetch_manifest (Some ''assets'')
                    :: exn + (string js, unit, string, nat) load_image list) = Inr [call]
           \<and> url call = Val ''assets/a.png''
           \<and> (\<forall>err img. callback call err img = AddImage ''a'' img 1)"
    using loadStoredFigmassets_path [of "''assets''" fetch_manifest manifest_a
        "[\<lparr>asset_id = ''a'', fileName = ''a.png'', scale = 1\<rparr>]" 1] f
    by blast
  have n: "normalize_path (Some ''assets'') = ''assets/''
      \<and> normalize_path (Some ''assets/'') = ''assets/''"
    by (simp add: normalize_path_eq)
  from t n show ?thesis by auto
qed

end
